theory Spec2Isabelle
  imports Main "HOL-Library.Word"
begin

section \<open>Data model of proxyserver.cpp\<close>

text \<open>
  Contexts live on the C heap and are shared by pointer: the event loop, the UID index
  and every peer cache refer to the same \<open>fd_ctx\<close>. The model keeps an explicit store
  \<open>mem\<close> from addresses to records. \<open>allocated\<close> lists the addresses handed out by
  \<open>allocate_fdctx\<close> and not yet released by \<open>deallocate_fdctx\<close>.

  The struct \<open>proxy_peers\<close> is a member of \<open>fd_ctx\<close> and exists nowhere else; its two
  fields \<open>npeers\<close> and \<open>peers\<close> are fields of the record below, and a member function of
  \<open>proxy_peers\<close> takes the address of the owning context as its \<open>this\<close>.
  \<open>npeers\<close> is a C \<open>int\<close> that the code only decrements after it found an entry or saw
  \<open>npeers \<ge> MAX_PEERS\<close>; it is a natural number here. \<open>refcount\<close> and \<open>faf_uid\<close> are
  integers (\<open>faf_uid = -1\<close> is the unset UID).
\<close>

type_synonym ptr = nat
type_synonym byte = "8 word"

definition MAX_PEERS :: nat where
  "MAX_PEERS = 16"

record fd_ctx =
  faf_uid :: int
  fd :: int
  is_server :: bool
  npeers :: nat
  peers :: "ptr list"
  buf_len :: int
  refcount :: int
  protocol :: int
  buf :: "byte list"

text \<open>
  Where a context is addressed by the event loop: \<open>ctrl_socket\<close> and \<open>ctrl_socket_conn\<close>
  are the two contexts on the stack of \<open>main\<close>, every other context is on the heap.
\<close>

datatype target = CtrlSocket | CtrlSocketConn | Ctx ptr

text \<open>
  The state of the process: the heap, the globals and the locals of \<open>main\<close> that outlive
  one loop round, and a trace of what the process did to the outside (\<open>writes\<close>: the
  \<open>write\<close> calls on peer sockets, as descriptor and bytes, oldest first; \<open>closed\<close>: the
  descriptors passed to \<open>close\<close>; \<open>ctrl_out\<close>: the messages sent on the control
  connection; \<open>epoll\<close>: the registered descriptors with their \<open>data.ptr\<close>;
  \<open>exit_status\<close>: the argument of \<open>exit\<close> once the process has called it).

  \<open>fault\<close> records that the run left defined C behaviour in one of the ways the model
  checks for: destroying a context that is not allocated, or a frame parser access
  outside the buffer.
\<close>

datatype ctrl_msg = Unlistening | Desc "int option list" "int list" | Exit

record state =
  mem :: "ptr \<Rightarrow> fd_ctx"
  allocated :: "ptr list"
  fault :: bool
  peer_sockets :: "ptr list"
  server_sockets :: "ptr list"
  ctrl_socket_fd :: int
  ctrl_socket_conn_fd :: int
  ctrl_socket_mode_listen :: bool
  decay_mode :: bool
  sockets_inherited :: int
  total_sockets :: int
  got_sigusr1 :: bool
  epoll :: "(int \<times> target) list"
  writes :: "(int \<times> byte list) list"
  closed :: "int list"
  ctrl_out :: "ctrl_msg list"
  exit_status :: "int option"

definition upd :: "state \<Rightarrow> ptr \<Rightarrow> (fd_ctx \<Rightarrow> fd_ctx) \<Rightarrow> state" where
  "upd s p f = s\<lparr>mem := (mem s)(p := f (mem s p))\<rparr>"

definition dec_refcount :: "state \<Rightarrow> ptr \<Rightarrow> state" where
  "dec_refcount s p = upd s p (\<lambda>c. c\<lparr>refcount := refcount c - 1\<rparr>)"

definition inc_refcount :: "state \<Rightarrow> ptr \<Rightarrow> state" where
  "inc_refcount s p = upd s p (\<lambda>c. c\<lparr>refcount := refcount c + 1\<rparr>)"

definition free_ctx :: "state \<Rightarrow> ptr \<Rightarrow> state" where
  "free_ctx s p = s\<lparr>allocated := removeAll p (allocated s)\<rparr>"

definition held :: "state \<Rightarrow> ptr set" where
  "held s = {q \<in> set (allocated s). 0 < refcount (mem s q)}"

section \<open>Destruction: \<open>deallocate_fdctx\<close>, \<open>~fd_ctx\<close> and \<open>proxy_peers::unref_all\<close>\<close>

text \<open>
  \<open>deallocate_fdctx p\<close> runs the destructor, which is \<open>peers.unref_all()\<close>, and frees
  \<open>p\<close>. \<open>unref_all\<close> decrements the reference count of every cache entry and destroys
  the entries whose count reaches 0, so the two functions are mutually recursive.
  \<open>unref_all s p i\<close> is the loop of \<open>unref_all\<close> on the cache of \<open>p\<close> from index \<open>i\<close> on;
  like the C loop it reads \<open>npeers\<close> and \<open>peers[i]\<close> from the current store in every round.
  Destroying an entry that is not allocated is a double free in C; the model sets
  \<open>fault\<close> and goes on with the next entry.
\<close>

function (domintros) deallocate_fdctx :: "state \<Rightarrow> ptr \<Rightarrow> state"
  and proxy_peers_unref_all :: "state \<Rightarrow> ptr \<Rightarrow> nat \<Rightarrow> state"
where
  "deallocate_fdctx s p = free_ctx (proxy_peers_unref_all s p 0) p"
| "proxy_peers_unref_all s p i =
     (if i < npeers (mem s p) then
        let q = peers (mem s p) ! i;
            s1 = dec_refcount s q
        in if refcount (mem s1 q) = 0 then
             (if q \<in> set (allocated s1)
              then proxy_peers_unref_all (deallocate_fdctx s1 q) p (i + 1)
              else proxy_peers_unref_all (s1\<lparr>fault := True\<rparr>) p (i + 1))
           else proxy_peers_unref_all s1 p (i + 1)
      else upd s p (\<lambda>c. c\<lparr>npeers := 0\<rparr>))"
  by pat_completeness auto

lemma held_dec_refcount: "held (dec_refcount s q) \<subseteq> held s"
  by (auto simp: held_def dec_refcount_def upd_def)

lemma refcount_dec_refcount: "refcount (mem (dec_refcount s q) q) = refcount (mem s q) - 1"
  by (simp add: dec_refcount_def upd_def)

lemma held_dec_refcount_zero:
  assumes "refcount (mem (dec_refcount s q) q) = 0" and "q \<in> set (allocated s)"
  shows "held (dec_refcount s q) \<subset> held s"
proof -
  have r: "refcount (mem s q) = 1"
    using assms(1) unfolding refcount_dec_refcount by simp
  have "q \<in> held s"
    using r assms(2) by (simp add: held_def)
  moreover have "q \<notin> held (dec_refcount s q)"
    using assms(1) by (simp add: held_def)
  ultimately show ?thesis
    using held_dec_refcount[of s q] by blast
qed

lemma finite_held: "finite (held s)"
  by (simp add: held_def)

lemma held_free_ctx: "held (free_ctx s p) \<subseteq> held s"
  by (auto simp: free_ctx_def held_def)

lemma mem_free_ctx: "mem (free_ctx s p) = mem s"
  by (simp add: free_ctx_def)

lemma npeers_dec_refcount: "npeers (mem (dec_refcount s q) x) = npeers (mem s x)"
  by (simp add: dec_refcount_def upd_def)

lemma allocated_dec_refcount: "allocated (dec_refcount s q) = allocated s"
  by (simp add: dec_refcount_def upd_def)

lemma held_fault: "held (s\<lparr>fault := b\<rparr>) = held s"
  by (simp add: held_def)

lemma mem_fault: "mem (s\<lparr>fault := b\<rparr>) = mem s"
  by simp

lemma held_upd_npeers: "held (upd s p (\<lambda>c. c\<lparr>npeers := n\<rparr>)) = held s"
  by (auto simp: held_def upd_def)

lemma npeers_upd_zero:
  "npeers (mem (upd s p (\<lambda>c. c\<lparr>npeers := 0\<rparr>)) x) \<le> npeers (mem s x)"
  by (simp add: upd_def)

text \<open>
  On its domain the destruction never adds a context with a positive count and never
  makes a cache longer. This is what the termination proof needs for the nested call.
\<close>

lemma dealloc_partial_mono:
  "deallocate_fdctx_proxy_peers_unref_all_dom (Inl (s, p)) \<Longrightarrow>
      held (deallocate_fdctx s p) \<subseteq> held s \<and>
      (\<forall>x. npeers (mem (deallocate_fdctx s p) x) \<le> npeers (mem s x))"
  "deallocate_fdctx_proxy_peers_unref_all_dom (Inr (s', p', i)) \<Longrightarrow>
      held (proxy_peers_unref_all s' p' i) \<subseteq> held s' \<and>
      (\<forall>x. npeers (mem (proxy_peers_unref_all s' p' i) x) \<le> npeers (mem s' x))"
proof (induction s p and s' p' i rule: deallocate_fdctx_proxy_peers_unref_all.pinduct)
  case (1 s p)
  have e: "deallocate_fdctx s p = free_ctx (proxy_peers_unref_all s p 0) p"
    by (rule deallocate_fdctx.psimps[OF 1(1)])
  show ?case unfolding e mem_free_ctx
    using 1(2) held_free_ctx[of "proxy_peers_unref_all s p 0" p] by blast
next
  case (2 s p i)
  show ?case
  proof (cases "i < npeers (mem s p)")
    case False
    have e: "proxy_peers_unref_all s p i = upd s p (\<lambda>c. c\<lparr>npeers := 0\<rparr>)"
      using False by (subst proxy_peers_unref_all.psimps[OF 2(1)]) simp
    show ?thesis unfolding e by (simp add: held_upd_npeers npeers_upd_zero)
  next
    case True
    define q where "q = peers (mem s p) ! i"
    define s1 where "s1 = dec_refcount s q"
    have h1: "held s1 \<subseteq> held s"
      by (simp add: s1_def held_dec_refcount)
    have n1: "\<And>x. npeers (mem s1 x) = npeers (mem s x)"
      by (simp add: s1_def npeers_dec_refcount)
    show ?thesis
    proof (cases "refcount (mem s1 q) = 0")
      case z: True
      show ?thesis
      proof (cases "q \<in> set (allocated s1)")
        case a: True
        have e: "proxy_peers_unref_all s p i =
                 proxy_peers_unref_all (deallocate_fdctx s1 q) p (i + 1)"
          using True z a
          by (subst proxy_peers_unref_all.psimps[OF 2(1)])
             (simp add: Let_def q_def[symmetric] s1_def[symmetric])
        have A: "held (deallocate_fdctx s1 q) \<subseteq> held s1"
          and B: "\<And>x. npeers (mem (deallocate_fdctx s1 q) x) \<le> npeers (mem s1 x)"
          using 2(2)[OF True q_def s1_def z a] by blast+
        have C: "held (proxy_peers_unref_all (deallocate_fdctx s1 q) p (i + 1))
                 \<subseteq> held (deallocate_fdctx s1 q)"
          and D: "\<And>x. npeers (mem (proxy_peers_unref_all (deallocate_fdctx s1 q) p (i + 1)) x)
                 \<le> npeers (mem (deallocate_fdctx s1 q) x)"
          using 2(3)[OF True q_def s1_def z a] by blast+
        have "held (proxy_peers_unref_all (deallocate_fdctx s1 q) p (i + 1)) \<subseteq> held s"
          using A C h1 by blast
        moreover have "\<And>x. npeers (mem (proxy_peers_unref_all (deallocate_fdctx s1 q) p (i + 1)) x)
                 \<le> npeers (mem s x)"
          using B D n1 by (metis order_trans)
        ultimately show ?thesis unfolding e by blast
      next
        case a: False
        have e: "proxy_peers_unref_all s p i =
                 proxy_peers_unref_all (s1\<lparr>fault := True\<rparr>) p (i + 1)"
          using True z a
          by (subst proxy_peers_unref_all.psimps[OF 2(1)])
             (simp add: Let_def q_def[symmetric] s1_def[symmetric])
        have C: "held (proxy_peers_unref_all (s1\<lparr>fault := True\<rparr>) p (i + 1)) \<subseteq> held s1"
          and D: "\<And>x. npeers (mem (proxy_peers_unref_all (s1\<lparr>fault := True\<rparr>) p (i + 1)) x)
                 \<le> npeers (mem s1 x)"
          using 2(4)[OF True q_def s1_def z a] unfolding held_fault mem_fault by blast+
        have "held (proxy_peers_unref_all (s1\<lparr>fault := True\<rparr>) p (i + 1)) \<subseteq> held s"
          using C h1 by blast
        moreover have "\<And>x. npeers (mem (proxy_peers_unref_all (s1\<lparr>fault := True\<rparr>) p (i + 1)) x)
                 \<le> npeers (mem s x)"
          using D n1 by simp
        ultimately show ?thesis unfolding e by blast
      qed
    next
      case z: False
      have e: "proxy_peers_unref_all s p i = proxy_peers_unref_all s1 p (i + 1)"
        using True z
        by (subst proxy_peers_unref_all.psimps[OF 2(1)])
           (simp add: Let_def q_def[symmetric] s1_def[symmetric])
      have C: "held (proxy_peers_unref_all s1 p (i + 1)) \<subseteq> held s1"
        and D: "\<And>x. npeers (mem (proxy_peers_unref_all s1 p (i + 1)) x) \<le> npeers (mem s1 x)"
        using 2(5)[OF True q_def s1_def z] by blast+
      have "held (proxy_peers_unref_all s1 p (i + 1)) \<subseteq> held s"
        using C h1 by blast
      moreover have "\<And>x. npeers (mem (proxy_peers_unref_all s1 p (i + 1)) x) \<le> npeers (mem s x)"
        using D n1 by simp
      ultimately show ?thesis unfolding e by blast
    qed
  qed
qed

text \<open>
  Every nested destruction is entered right after the count of an allocated context fell
  from 1 to 0, so the number of allocated contexts with a positive count decreases.
\<close>

lemma dealloc_total: "All deallocate_fdctx_proxy_peers_unref_all_dom"
proof (relation "inv_image (less_than <*lex*> less_than <*lex*> less_than)
    (\<lambda>x. case x of Inl (s, p) \<Rightarrow> (card (held s), 1::nat, 0::nat)
                 | Inr (s, p, i) \<Rightarrow> (card (held s), 0, npeers (mem s p) - i))", goal_cases)
  case 1
  show ?case by (rule wf_inv_image) (intro wf_lex_prod wf_less_than)
next
  case (2 s p)
  then show ?case by simp
next
  case (3 s p i q s1)
  then have "held s1 \<subset> held s"
    using held_dec_refcount_zero[of s q] by (simp add: allocated_dec_refcount)
  then have "card (held s1) < card (held s)"
    by (simp add: finite_held psubset_card_mono)
  then show ?case by simp
next
  case (4 s p i q s1)
  then have "held s1 \<subset> held s"
    using held_dec_refcount_zero[of s q] by (simp add: allocated_dec_refcount)
  then have a: "card (held s1) < card (held s)"
    by (simp add: finite_held psubset_card_mono)
  have "card (held (deallocate_fdctx s1 q)) \<le> card (held s1)"
    using dealloc_partial_mono(1)[OF 4(6)] by (simp add: card_mono finite_held)
  with a show ?case by simp
next
  case (5 s p i q s1)
  have "held (s1\<lparr>fault := True\<rparr>) = held s"
    using 5 by (auto simp: held_def dec_refcount_def upd_def)
  moreover have "npeers (mem (s1\<lparr>fault := True\<rparr>) p) = npeers (mem s p)"
    using 5 by (simp add: dec_refcount_def upd_def)
  ultimately show ?case using 5(1) by simp
next
  case (6 s p i q s1)
  have "card (held s1) \<le> card (held s)"
    using 6 held_dec_refcount[of s q] by (simp add: card_mono finite_held)
  moreover have "npeers (mem s1 p) = npeers (mem s p)"
    using 6 by (simp add: dec_refcount_def upd_def)
  ultimately show ?case using 6(1) by auto
qed

termination deallocate_fdctx
  by (rule dealloc_total)

declare deallocate_fdctx.simps [simp del] proxy_peers_unref_all.simps [simp del]

text \<open>The destruction is total: the simplification and induction rules hold everywhere.\<close>

lemma dealloc_mono:
  "held (deallocate_fdctx s p) \<subseteq> held s"
  "npeers (mem (deallocate_fdctx s p) x) \<le> npeers (mem s x)"
  using dealloc_partial_mono(1)[of s p] dealloc_total by auto

text \<open>
  \<open>unref s q\<close> is the statement \<open>if (--q->refcount == 0) deallocate_fdctx(q);\<close>, which
  the cache operations use on an entry they drop.
\<close>

definition unref :: "state \<Rightarrow> ptr \<Rightarrow> state" where
  "unref s q =
     (let s1 = dec_refcount s q
      in if refcount (mem s1 q) = 0 then
           (if q \<in> set (allocated s1) then deallocate_fdctx s1 q else s1\<lparr>fault := True\<rparr>)
         else s1)"

lemma npeers_unref_le: "npeers (mem (unref s q) x) \<le> npeers (mem s x)"
proof -
  have "npeers (mem (deallocate_fdctx (dec_refcount s q) q) x) \<le> npeers (mem s x)"
    using dealloc_mono(2)[of "dec_refcount s q" q x] by (simp add: npeers_dec_refcount)
  then show ?thesis
    by (simp add: unref_def Let_def npeers_dec_refcount)
qed

section \<open>The peer cache: \<open>proxy_peers\<close>\<close>

text \<open>
  \<open>proxy_peers::find\<close>: a linear scan over the first \<open>npeers\<close> slots that compares the
  UID each entry has now.
\<close>

function find_loop :: "(ptr \<Rightarrow> fd_ctx) \<Rightarrow> ptr list \<Rightarrow> nat \<Rightarrow> int \<Rightarrow> nat \<Rightarrow> ptr option" where
  "find_loop m ps n uid i =
     (if i < n then
        (if faf_uid (m (ps ! i)) = uid then Some (ps ! i) else find_loop m ps n uid (i + 1))
      else None)"
  by pat_completeness auto
termination
  by (relation "measure (\<lambda>(m, ps, n, uid, i). n - i)") auto

declare find_loop.simps [simp del]

definition proxy_peers_find :: "state \<Rightarrow> ptr \<Rightarrow> int \<Rightarrow> ptr option" where
  "proxy_peers_find s c uid = find_loop (mem s) (peers (mem s c)) (npeers (mem s c)) uid 0"

text \<open>
  \<open>proxy_peers::add\<close>. \<open>shift_right\<close> is the loop that moves the entries one slot back,
  carrying the displaced entry in \<open>prev\<close>. With a full cache the code drops its
  reference to the entry in the last slot, decrements \<open>npeers\<close> and calls itself.
\<close>

function shift_right :: "ptr list \<Rightarrow> ptr \<Rightarrow> nat \<Rightarrow> nat \<Rightarrow> ptr list \<times> ptr" where
  "shift_right ps prev i n =
     (if i < n then shift_right (ps[i := prev]) (ps ! i) (i + 1) n else (ps, prev))"
  by pat_completeness auto
termination
  by (relation "measure (\<lambda>(ps, prev, i, n). n - i)") auto

declare shift_right.simps [simp del]

function proxy_peers_add :: "state \<Rightarrow> ptr \<Rightarrow> ptr \<Rightarrow> state" where
  "proxy_peers_add s c p =
     (if npeers (mem s c) < MAX_PEERS then
        let n = npeers (mem s c);
            (ps, prev) = shift_right (peers (mem s c)) (peers (mem s c) ! 0) 1 n;
            s1 = upd s c (\<lambda>x. x\<lparr>peers := (ps[n := prev])[0 := p]\<rparr>);
            s2 = inc_refcount s1 p
        in upd s2 c (\<lambda>x. x\<lparr>npeers := npeers x + 1\<rparr>)
      else
        let s1 = unref s (peers (mem s c) ! (npeers (mem s c) - 1));
            s2 = upd s1 c (\<lambda>x. x\<lparr>npeers := npeers x - 1\<rparr>)
        in proxy_peers_add s2 c p)"
  by pat_completeness auto
termination
proof (relation "measure (\<lambda>(s, c, p). npeers (mem s c))", goal_cases)
  case 1
  show ?case by simp
next
  case (2 s c p s1 s2)
  have "npeers (mem s1 c) \<le> npeers (mem s c)"
    using 2 by (simp add: npeers_unref_le)
  moreover have "npeers (mem s2 c) = npeers (mem s1 c) - 1"
    using 2 by (simp add: upd_def)
  moreover have "0 < npeers (mem s c)"
    using 2 by (simp add: MAX_PEERS_def)
  ultimately show ?case by simp
qed

declare proxy_peers_add.simps [simp del]

text \<open>
  \<open>proxy_peers::remove\<close>: find the first slot that holds \<open>p\<close>, move the later entries
  one slot forward, decrement \<open>npeers\<close> and drop the reference.
\<close>

function find_slot :: "ptr list \<Rightarrow> nat \<Rightarrow> ptr \<Rightarrow> nat \<Rightarrow> nat option" where
  "find_slot ps n p i =
     (if i < n then (if ps ! i = p then Some i else find_slot ps n p (i + 1)) else None)"
  by pat_completeness auto
termination
  by (relation "measure (\<lambda>(ps, n, p, i). n - i)") auto

declare find_slot.simps [simp del]

function shift_left :: "ptr list \<Rightarrow> nat \<Rightarrow> nat \<Rightarrow> ptr list" where
  "shift_left ps i n = (if i < n then shift_left (ps[i - 1 := ps ! i]) (i + 1) n else ps)"
  by pat_completeness auto
termination
  by (relation "measure (\<lambda>(ps, i, n). n - i)") auto

declare shift_left.simps [simp del]

definition proxy_peers_remove :: "state \<Rightarrow> ptr \<Rightarrow> ptr \<Rightarrow> state" where
  "proxy_peers_remove s c p =
     (case find_slot (peers (mem s c)) (npeers (mem s c)) p 0 of
        None \<Rightarrow> s
      | Some i \<Rightarrow>
          let s1 = upd s c (\<lambda>x. x\<lparr>peers := shift_left (peers x) (i + 1) (npeers x)\<rparr>);
              s2 = upd s1 c (\<lambda>x. x\<lparr>npeers := npeers x - 1\<rparr>)
          in unref s2 p)"

lemma npeers_remove_le: "npeers (mem (proxy_peers_remove s c p) x) \<le> npeers (mem s x)"
proof (cases "find_slot (peers (mem s c)) (npeers (mem s c)) p 0")
  case None
  then show ?thesis by (simp add: proxy_peers_remove_def)
next
  case (Some i)
  define s2 where "s2 = upd (upd s c (\<lambda>x. x\<lparr>peers := shift_left (peers x) (i + 1) (npeers x)\<rparr>))
                            c (\<lambda>x. x\<lparr>npeers := npeers x - 1\<rparr>)"
  have "npeers (mem s2 x) \<le> npeers (mem s x)"
    by (simp add: s2_def upd_def)
  moreover have "npeers (mem (unref s2 p) x) \<le> npeers (mem s2 x)"
    by (rule npeers_unref_le)
  ultimately show ?thesis
    using Some by (simp add: proxy_peers_remove_def Let_def s2_def)
qed

text \<open>
  \<open>proxy_peers::remove_from_all_peers\<close>, called as
  \<open>ctx->peers.remove_from_all_peers(ctx)\<close> by \<open>remove_myself_from_peer_caches\<close>: every
  entry of the cache of \<open>c\<close> is asked to remove \<open>p\<close> from its own cache. The loop reads
  \<open>npeers\<close> and \<open>peers[i]\<close> of \<open>c\<close> again in every round.
\<close>

function proxy_peers_remove_from_all_peers :: "state \<Rightarrow> ptr \<Rightarrow> ptr \<Rightarrow> nat \<Rightarrow> state" where
  "proxy_peers_remove_from_all_peers s c p i =
     (if i < npeers (mem s c) then
        proxy_peers_remove_from_all_peers
          (proxy_peers_remove s (peers (mem s c) ! i) p) c p (i + 1)
      else s)"
  by pat_completeness auto
termination
proof (relation "measure (\<lambda>(s, c, p, i). npeers (mem s c) - i)", goal_cases)
  case 1
  show ?case by simp
next
  case (2 s c p i)
  then show ?case
    using npeers_remove_le[of s "peers (mem s c) ! i" p c] by simp
qed

declare proxy_peers_remove_from_all_peers.simps [simp del]

definition remove_myself_from_peer_caches :: "state \<Rightarrow> ptr \<Rightarrow> state" where
  "remove_myself_from_peer_caches s c = proxy_peers_remove_from_all_peers s c c 0"

text \<open>
  \<open>proxy_peers::cleanup_dangling\<close>. An entry whose UID is unset loses one reference; it
  leaves the cache only when that was the last one (\<open>continue\<close> stands inside the inner
  \<open>if\<close>). No function of the program calls \<open>cleanup_dangling\<close>.
\<close>

function proxy_peers_cleanup_dangling :: "state \<Rightarrow> ptr \<Rightarrow> nat \<Rightarrow> nat \<Rightarrow> state" where
  "proxy_peers_cleanup_dangling s c i oi =
     (if i < npeers (mem s c) then
        let q = peers (mem s c) ! i in
        if faf_uid (mem s q) = -1 \<and> refcount (mem s q) - 1 = 0 then
          let s1 = dec_refcount s q;
              s2 = (if q \<in> set (allocated s1) then deallocate_fdctx s1 q else s1\<lparr>fault := True\<rparr>)
          in proxy_peers_cleanup_dangling s2 c (i + 1) oi
        else
          let s1 = (if faf_uid (mem s q) = -1 then dec_refcount s q else s);
              s2 = (if i \<noteq> oi then upd s1 c (\<lambda>x. x\<lparr>peers := (peers x)[oi := peers x ! i]\<rparr>) else s1)
          in proxy_peers_cleanup_dangling s2 c (i + 1) (oi + 1)
      else upd s c (\<lambda>x. x\<lparr>npeers := oi\<rparr>))"
  by pat_completeness auto
termination
proof (relation "measure (\<lambda>(s, c, i, oi). npeers (mem s c) - i)", goal_cases)
  case 1
  show ?case by simp
next
  case (2 s c i oi q s1 s2)
  have "npeers (mem s2 c) \<le> npeers (mem s1 c)"
    using 2 dealloc_mono(2)[of s1 q c] by simp
  then show ?case
    using 2 by (simp add: npeers_dec_refcount)
next
  case (3 s c i oi q s1 s2)
  have "npeers (mem s2 c) = npeers (mem s c)"
    using 3 by (simp add: upd_def dec_refcount_def)
  then show ?case
    using 3 by simp
qed

declare proxy_peers_cleanup_dangling.simps [simp del]

section \<open>Bytes and byte order\<close>

text \<open>
  \<open>FDCTX_CLIENT_BUFSIZE = 4096 - sizeof(fd_ctx)\<close>. On x86-64 Linux \<open>sizeof(fd_ctx)\<close> is
  168: two ints and a bool (padded to 16), \<open>proxy_peers\<close> (an int padded to 8 and 16
  pointers, 136 bytes), three ints and \<open>buf[1]\<close>, rounded up to a multiple of 8.
\<close>

definition sizeof_fd_ctx :: int where
  "sizeof_fd_ctx = 168"

definition FDCTX_CLIENT_BUFSIZE :: int where
  "FDCTX_CLIENT_BUFSIZE = 4096 - sizeof_fd_ctx"

text \<open>
  \<open>ntohl_at b i\<close> is \<open>ntohl\<close> of the \<open>uint32_t\<close> stored at offset \<open>i\<close>, that is the
  big-endian value of the four bytes, and \<open>ntohs_at\<close> the same for a \<open>uint16_t\<close>.
  \<open>int32_of_uint32\<close> is the conversion of that value to \<open>int\<close> in
  \<open>const int in_msg_size = ntohl(h->size)\<close>: values from \<open>2^31\<close> on become negative.
  \<open>htonl_bytes\<close> and \<open>htons_bytes\<close> are the bytes that storing \<open>htonl(v)\<close> and
  \<open>htons(v)\<close> writes; the conversion of \<open>v\<close> to the unsigned type is the reduction
  modulo 256 of each byte.
\<close>

definition ntohl_at :: "byte list \<Rightarrow> int \<Rightarrow> nat" where
  "ntohl_at b i = unat (b ! nat i) * 16777216 + unat (b ! nat (i + 1)) * 65536
                + unat (b ! nat (i + 2)) * 256 + unat (b ! nat (i + 3))"

definition ntohs_at :: "byte list \<Rightarrow> int \<Rightarrow> int" where
  "ntohs_at b i = int (unat (b ! nat i) * 256 + unat (b ! nat (i + 1)))"

definition int32_of_uint32 :: "nat \<Rightarrow> int" where
  "int32_of_uint32 v = (if v < 2147483648 then int v else int v - 4294967296)"

definition htonl_bytes :: "int \<Rightarrow> byte list" where
  "htonl_bytes v = [word_of_int (v div 16777216), word_of_int (v div 65536),
                    word_of_int (v div 256), word_of_int v]"

definition htons_bytes :: "int \<Rightarrow> byte list" where
  "htons_bytes v = [word_of_int (v div 256), word_of_int v]"

text \<open>
  The two frames of the peer protocol as the code reads them: a UID announce is a size
  field of 2 and the UID; an addressed message is the size field, the port, the
  destination UID and the payload, the size counting everything after the size field.
\<close>

definition announce :: "int \<Rightarrow> byte list" where
  "announce u = htonl_bytes 2 @ htons_bytes u"

definition addressed :: "int \<Rightarrow> int \<Rightarrow> byte list \<Rightarrow> byte list" where
  "addressed port destuid payload =
     htonl_bytes (4 + int (length payload)) @ htons_bytes port @ htons_bytes destuid @ payload"

text \<open>Storing the bytes \<open>bs\<close> at offset \<open>i\<close> of a buffer, and reading \<open>n\<close> bytes from there.\<close>

definition buf_write :: "byte list \<Rightarrow> int \<Rightarrow> byte list \<Rightarrow> byte list" where
  "buf_write b i bs = take (nat i) b @ bs @ drop (nat i + length bs) b"

definition buf_read :: "byte list \<Rightarrow> int \<Rightarrow> int \<Rightarrow> byte list" where
  "buf_read b i n = take (nat n) (drop (nat i) b)"

section \<open>The UID index: \<open>peer_sockets\<close>\<close>

text \<open>
  \<open>peer_sockets\<close> is a \<open>std::set<fd_ctx *, fd_ctx_less_by_uid>\<close>: a set of context
  addresses ordered by the UID each context has when it is compared. The model keeps
  the elements as a list in that order. \<open>insert\<close> goes to the place where the order puts
  the new element and, as \<open>std::set::insert\<close> does, leaves the set unchanged when an
  element with an equivalent key (here: the same UID) is already there. \<open>find\<close> and
  \<open>erase\<close> take a key, in the code a context whose \<open>faf_uid\<close> is the key.
\<close>

fun set_insert :: "(ptr \<Rightarrow> int) \<Rightarrow> ptr \<Rightarrow> ptr list \<Rightarrow> ptr list" where
  "set_insert key p [] = [p]"
| "set_insert key p (q # qs) =
     (if key p < key q then p # q # qs
      else if key q < key p then q # set_insert key p qs
      else q # qs)"

fun set_find :: "(ptr \<Rightarrow> int) \<Rightarrow> int \<Rightarrow> ptr list \<Rightarrow> ptr option" where
  "set_find key k [] = None"
| "set_find key k (q # qs) =
     (if key q < k then set_find key k qs
      else if k < key q then None
      else Some q)"

fun set_erase :: "(ptr \<Rightarrow> int) \<Rightarrow> int \<Rightarrow> ptr list \<Rightarrow> ptr list" where
  "set_erase key k [] = []"
| "set_erase key k (q # qs) =
     (if key q < k then q # set_erase key k qs
      else if k < key q then q # qs
      else qs)"

definition uid_of :: "state \<Rightarrow> ptr \<Rightarrow> int" where
  "uid_of s p = faf_uid (mem s p)"

definition peer_sockets_insert :: "state \<Rightarrow> ptr \<Rightarrow> state" where
  "peer_sockets_insert s p = s\<lparr>peer_sockets := set_insert (uid_of s) p (peer_sockets s)\<rparr>"

definition peer_sockets_find :: "state \<Rightarrow> int \<Rightarrow> ptr option" where
  "peer_sockets_find s uid = set_find (uid_of s) uid (peer_sockets s)"

definition peer_sockets_erase :: "state \<Rightarrow> ptr \<Rightarrow> state" where
  "peer_sockets_erase s p = s\<lparr>peer_sockets := set_erase (uid_of s) (uid_of s p) (peer_sockets s)\<rparr>"

section \<open>System calls\<close>

text \<open>
  \<open>close(fd)\<close> is recorded, and the kernel drops the descriptor from the epoll set.
  \<open>epoll_ctl(EPOLL_CTL_DEL)\<close> drops it too; \<open>epoll_ctl(EPOLL_CTL_ADD)\<close> registers the
  descriptor with its \<open>data.ptr\<close>.
\<close>

definition epoll_del :: "state \<Rightarrow> int \<Rightarrow> state" where
  "epoll_del s f = s\<lparr>epoll := filter (\<lambda>e. fst e \<noteq> f) (epoll s)\<rparr>"

definition epoll_add :: "state \<Rightarrow> int \<Rightarrow> target \<Rightarrow> state" where
  "epoll_add s f t = s\<lparr>epoll := epoll s @ [(f, t)]\<rparr>"

definition close_fd :: "state \<Rightarrow> int \<Rightarrow> state" where
  "close_fd s f = (epoll_del s f)\<lparr>closed := closed s @ [f]\<rparr>"

section \<open>The environment of one readiness event\<close>

text \<open>
  What the system calls made while one epoll result is handled return: \<open>read\<close> gives an
  error number or the bytes read (none: end of stream); \<open>e_sendmsg k\<close> tells whether the
  \<open>k\<close>-th \<open>sendmsg\<close> succeeds; \<open>e_accept\<close> is the descriptor \<open>accept\<close> returns (negative:
  failure); \<open>e_new\<close> is the address \<open>malloc\<close> returns to \<open>allocate_fdctx\<close>, and the
  \<open>k\<close>-th one for the \<open>k\<close>-th descriptor of a received \<open>desc\<close> message.
\<close>

datatype read_result = ReadErr int | ReadData "byte list"

datatype recv_result = RecvErr | RecvClosed | RecvDesc bool "int list" "int list" | RecvExit | RecvOther

record env =
  e_read :: read_result
  e_sendmsg :: "nat \<Rightarrow> bool"
  e_accept :: int
  e_epoll_add :: "nat \<Rightarrow> bool"
  e_epoll_del :: bool
  e_write_ok :: bool
  e_new :: "nat \<Rightarrow> ptr"
  e_recvmsg :: recv_result
  e_socket :: int

section \<open>Handing descriptors over: \<open>send_fds\<close> and \<open>send_fd\<close>\<close>

text \<open>
  \<open>send_fds\<close> walks the range and collects every context with an empty buffer, at most
  \<open>MAX_DESC_PER_MESSAGE\<close> of them. The descriptor goes to slot \<open>fd_count\<close> of the
  ancillary data; the UID goes to \<open>*uidp\<close>, and \<open>uidp\<close> advances for every element of the
  range, collected or not. A slot of the UID array that was never written is \<open>None\<close>.
  The array has \<open>MAX_DESC_PER_MESSAGE\<close> slots: writing past it is a fault.
  \<open>send_fds_scan s ps k cnt\<close> returns the UID slots from position \<open>k\<close> on, the
  descriptors, the contexts collected, and whether a write left the array.
\<close>

definition MAX_DESC_PER_MESSAGE :: nat where
  "MAX_DESC_PER_MESSAGE = 256"

fun send_fds_scan :: "state \<Rightarrow> ptr list \<Rightarrow> nat \<Rightarrow> nat
    \<Rightarrow> int option list \<times> int list \<times> ptr list \<times> bool" where
  "send_fds_scan s [] k cnt = ([], [], [], False)"
| "send_fds_scan s (p # ps) k cnt =
     (if cnt < MAX_DESC_PER_MESSAGE then
        (if buf_len (mem s p) = 0 then
           (case send_fds_scan s ps (k + 1) (cnt + 1) of (us, fs, es, bad) \<Rightarrow>
              (Some (faf_uid (mem s p)) # us, fd (mem s p) # fs, p # es,
               bad \<or> MAX_DESC_PER_MESSAGE \<le> k))
         else
           (case send_fds_scan s ps (k + 1) cnt of (us, fs, es, bad) \<Rightarrow>
              (None # us, fs, es, bad)))
      else ([], [], [], False))"

text \<open>
  The message carries the first \<open>fd_count\<close> slots of the UID array. When \<open>all\<close> is given
  (the bulk transfer), the collected contexts are erased from it, whether or not the
  message could be sent. Only after a successful \<open>sendmsg\<close> are the descriptors taken
  out of the epoll set and closed, and \<open>total_sockets\<close> reduced.
\<close>

definition send_fds :: "state \<Rightarrow> ptr list \<Rightarrow> bool \<Rightarrow> bool \<Rightarrow> state \<times> nat" where
  "send_fds s ps erase_all ok =
     (case send_fds_scan s ps 0 0 of (us, fs, es, bad) \<Rightarrow>
        let fd_count = length fs;
            s1 = (if bad then s\<lparr>fault := True\<rparr> else s);
            s2 = (if erase_all
                  then s1\<lparr>peer_sockets := filter (\<lambda>q. q \<notin> set es) (peer_sockets s1)\<rparr>
                  else s1);
            s3 = (if fd_count \<noteq> 0 \<and> ok then
                    fold (\<lambda>f t. close_fd (epoll_del t f) f) fs
                      (s2\<lparr>ctrl_out := ctrl_out s2 @ [Desc (take fd_count us) fs],
                          total_sockets := total_sockets s2 - int fd_count\<rparr>)
                  else s2)
        in (s3, fd_count))"

definition send_fd :: "state \<Rightarrow> ptr \<Rightarrow> bool \<Rightarrow> state" where
  "send_fd s p ok = fst (send_fds s [p] False ok)"

section \<open>Closing a peer connection\<close>

text \<open>
  The statements that follow \<open>read\<close> returning 0, and the same ones after a frame that is
  too big: close the socket, erase the context from the UID index when it has a UID,
  take it out of the caches of the peers it has cached, and drop the reference of the
  event loop. A context that is still referenced stays, with its UID reset to unset.
\<close>

definition drop_connection :: "state \<Rightarrow> ptr \<Rightarrow> state" where
  "drop_connection s p =
     (let s1 = close_fd s (fd (mem s p));
          s2 = s1\<lparr>total_sockets := total_sockets s1 - 1\<rparr>;
          s3 = (if faf_uid (mem s2 p) \<noteq> -1 then peer_sockets_erase s2 p else s2);
          s4 = remove_myself_from_peer_caches s3 p;
          s5 = dec_refcount s4 p
      in if refcount (mem s5 p) = 0 then
           (if p \<in> set (allocated s5) then deallocate_fdctx s5 p else s5\<lparr>fault := True\<rparr>)
         else upd s5 p (\<lambda>c. c\<lparr>faf_uid := -1\<rparr>))"

section \<open>The router\<close>

text \<open>
  Looking up the destination: the cache of the sender first, then the UID index; a
  context found in the index is added to the cache.
\<close>

definition resolve :: "state \<Rightarrow> ptr \<Rightarrow> int \<Rightarrow> state \<times> ptr option" where
  "resolve s p uid =
     (case proxy_peers_find s p uid of
        Some peer \<Rightarrow> (s, Some peer)
      | None \<Rightarrow>
          (case peer_sockets_find s uid of
             Some peer \<Rightarrow> (proxy_peers_add s p peer, Some peer)
           | None \<Rightarrow> (s, None)))"

text \<open>
  The header rewrite and the \<open>write\<close>. \<open>hout\<close> is \<open>buf_head + OUT_HEADER_OFFSET_ADJ\<close>, two
  bytes into the frame; \<open>hout->port\<close> is at offset 4 of \<open>hout\<close> and is stored first,
  \<open>hout->size\<close> at offset 0. The \<open>write\<close> takes \<open>out_size + 4\<close> bytes from \<open>hout\<close>.
\<close>

definition OUT_HEADER_OFFSET_ADJ :: int where
  "OUT_HEADER_OFFSET_ADJ = 2"

definition forward :: "state \<Rightarrow> ptr \<Rightarrow> ptr \<Rightarrow> int \<Rightarrow> int \<Rightarrow> state" where
  "forward s p peer head in_msg_size =
     (let in_port = ntohs_at (buf (mem s p)) (head + 4);
          hout = head + OUT_HEADER_OFFSET_ADJ;
          s1 = upd s p (\<lambda>c. c\<lparr>buf := buf_write (buf c) (hout + 4) (htons_bytes in_port)\<rparr>);
          out_size = in_msg_size - OUT_HEADER_OFFSET_ADJ;
          s2 = upd s1 p (\<lambda>c. c\<lparr>buf := buf_write (buf c) hout (htonl_bytes out_size)\<rparr>)
      in s2\<lparr>writes := writes s2 @ [(fd (mem s2 peer), buf_read (buf (mem s2 p)) hout (out_size + 4))]\<rparr>)"

section \<open>The frame parser\<close>

text \<open>
  The \<open>while\<close> loop over the buffered frames of context \<open>p\<close>; \<open>head\<close> is the offset of
  \<open>buf_head\<close> in \<open>buf\<close>. The result is the state, the final offset and \<open>postprocess\<close>.
  The loop need not terminate: a size field of \<open>0xFFFFFFFC\<close> is read as \<open>-4\<close> and leaves
  \<open>buf_head\<close> where it is. An access outside \<open>buf\<close> (a header before its start or past
  \<open>FDCTX_CLIENT_BUFSIZE\<close>, a \<open>write\<close> of a negative length) sets \<open>fault\<close> and ends the
  loop.
\<close>

partial_function (option) parse_loop :: "state \<Rightarrow> ptr \<Rightarrow> int \<Rightarrow> (state \<times> int \<times> bool) option" where
  "parse_loop s p head =
     (if \<not> head < buf_len (mem s p) then Some (s, head, True)
      else if buf_len (mem s p) - head < 4 then Some (s, head, True)
      else if head < 0 then Some (s\<lparr>fault := True\<rparr>, head, False)
      else
        let in_msg_size = int32_of_uint32 (ntohl_at (buf (mem s p)) head) in
        if in_msg_size > FDCTX_CLIENT_BUFSIZE then
          Some (drop_connection (epoll_del s (fd (mem s p))) p, head, False)
        else if in_msg_size + 4 > buf_len (mem s p) - head then Some (s, head, True)
        else if faf_uid (mem s p) = -1 then
          (if FDCTX_CLIENT_BUFSIZE < head + 6 then Some (s\<lparr>fault := True\<rparr>, head, False)
           else
             let s1 = upd s p (\<lambda>c. c\<lparr>faf_uid := ntohs_at (buf c) (head + 4)\<rparr>);
                 s2 = peer_sockets_insert s1 p
             in parse_loop s2 p (head + (in_msg_size + 4)))
        else if \<not> decay_mode s then
          (if FDCTX_CLIENT_BUFSIZE < head + 8 then Some (s\<lparr>fault := True\<rparr>, head, False)
           else
             case resolve s p (ntohs_at (buf (mem s p)) (head + 6)) of
               (s1, None) \<Rightarrow> parse_loop s1 p (head + (in_msg_size + 4))
             | (s1, Some peer) \<Rightarrow>
                 if in_msg_size - OUT_HEADER_OFFSET_ADJ + 4 < 0
                 then Some (s1\<lparr>fault := True\<rparr>, head, False)
                 else parse_loop (forward s1 p peer head in_msg_size) p (head + (in_msg_size + 4)))
        else parse_loop s p (head + (in_msg_size + 4)))"

text \<open>
  After the loop the unread bytes move to the front of the buffer and \<open>buf_len\<close> becomes
  their number.
\<close>

definition compact :: "state \<Rightarrow> ptr \<Rightarrow> int \<Rightarrow> state" where
  "compact s p head =
     (let new_buflen = buf_len (mem s p) - head;
          s1 = (if new_buflen \<noteq> 0 \<and> head \<noteq> 0 then
                  (if head < 0 then s\<lparr>fault := True\<rparr>
                   else upd s p (\<lambda>c. c\<lparr>buf := buf_write (buf c) 0 (buf_read (buf c) head new_buflen)\<rparr>))
                else s)
      in upd s1 p (\<lambda>c. c\<lparr>buf_len := new_buflen\<rparr>))"

text \<open>
  One readiness event on a peer connection \<open>p\<close> (the last \<open>else\<close> of the dispatch). In
  decay mode a connection with an empty buffer is handed over without being read.
  \<open>read\<close> is asked for at most \<open>FDCTX_CLIENT_BUFSIZE - buf_len\<close> bytes. The result is
  \<open>None\<close> when the parser loop does not terminate.
\<close>

text \<open>
  \<open>ship\<close>: the hand-over of one drained connection in decay mode. \<open>append_read\<close>: what
  \<open>read\<close> does to the buffer when it returns the bytes \<open>bs\<close>.
\<close>

definition ship :: "state \<Rightarrow> ptr \<Rightarrow> bool \<Rightarrow> state" where
  "ship s p ok =
     (let s1 = send_fd s p ok
      in if faf_uid (mem s1 p) \<noteq> -1 then peer_sockets_erase s1 p else s1)"

definition append_read :: "state \<Rightarrow> ptr \<Rightarrow> byte list \<Rightarrow> state" where
  "append_read s p bs =
     upd s p (\<lambda>c. c\<lparr>buf := buf_write (buf c) (buf_len c) bs,
                       buf_len := buf_len c + int (length bs)\<rparr>)"

definition peer_event :: "state \<Rightarrow> ptr \<Rightarrow> env \<Rightarrow> state option" where
  "peer_event s p e =
     (if decay_mode s \<and> buf_len (mem s p) = 0 then Some (ship s p (e_sendmsg e 0))
      else
        case e_read e of
          ReadErr errno \<Rightarrow> Some s
        | ReadData bs \<Rightarrow>
            if bs = [] then Some (drop_connection s p)
            else
              let s1 = append_read s p bs
              in case parse_loop s1 p 0 of
                   None \<Rightarrow> None
                 | Some (s2, head, postprocess) \<Rightarrow>
                     let s3 = (if postprocess then compact s2 p head else s2)
                     in if decay_mode s3 \<and> buf_len (mem s3 p) = 0
                        then Some (ship s3 p (e_sendmsg e 0))
                        else Some s3)"

section \<open>The other readiness events\<close>

text \<open>
  \<open>allocate_fdctx\<close> followed by the assignments both accept paths make. The constructor
  sets \<open>refcount = 1\<close> and \<open>npeers = 0\<close>. \<open>malloc\<close> does not initialise the cache slots and
  the buffer; the model fills them with 0.
\<close>

definition IPPROTO_TCP :: int where
  "IPPROTO_TCP = 6"

definition new_peer :: "state \<Rightarrow> ptr \<Rightarrow> int \<Rightarrow> int \<Rightarrow> state" where
  "new_peer s cp f uid =
     s\<lparr>mem := (mem s)(cp := \<lparr>faf_uid = uid, fd = f, is_server = False, npeers = 0,
                              peers = replicate MAX_PEERS 0, buf_len = 0, refcount = 1,
                              protocol = IPPROTO_TCP,
                              buf = replicate (nat FDCTX_CLIENT_BUFSIZE) 0\<rparr>),
       allocated := cp # allocated s\<rparr>"

text \<open>\<open>poll_in(epoll, ptr)\<close>: a failing \<open>epoll_ctl\<close> is logged and nothing else.\<close>

definition poll_in :: "state \<Rightarrow> int \<Rightarrow> target \<Rightarrow> bool \<Rightarrow> state" where
  "poll_in s f t ok = (if ok then epoll_add s f t else s)"

text \<open>A connection on a TCP listener.\<close>

definition tcp_accept :: "state \<Rightarrow> env \<Rightarrow> state" where
  "tcp_accept s e =
     (if e_accept e < 0 then s
      else
        let s1 = s\<lparr>total_sockets := total_sockets s + 1\<rparr>;
            cp = e_new e 0;
            s2 = new_peer s1 cp (e_accept e) (-1)
        in if e_epoll_add e 0 then epoll_add s2 (e_accept e) (Ctx cp)
           else
             let s3 = s2\<lparr>total_sockets := total_sockets s2 - 1\<rparr>;
                 s4 = close_fd s3 (e_accept e)
             in deallocate_fdctx s4 cp)"

text \<open>
  A connection on the local control listener. Only one control connection is served at
  a time: the listener leaves the epoll set.
\<close>

definition ctrl_accept :: "state \<Rightarrow> env \<Rightarrow> state" where
  "ctrl_accept s e =
     (if e_accept e < 0 then s
      else if \<not> e_epoll_add e 0 then close_fd s (e_accept e)
      else
        let s1 = epoll_add s (e_accept e) CtrlSocketConn
        in if \<not> e_epoll_del e then close_fd s1 (e_accept e)
           else (epoll_del s1 (ctrl_socket_fd s1))\<lparr>ctrl_socket_conn_fd := e_accept e\<rparr>)"

text \<open>
  Closing the TCP listeners: the loop that the \<open>unlisten\<close> command and the signal flag
  both run over \<open>server_sockets\<close>.
\<close>

definition close_listeners :: "state \<Rightarrow> state" where
  "close_listeners s =
     fold (\<lambda>l t. (close_fd (epoll_del t (fd (mem t l))) (fd (mem t l)))
                    \<lparr>total_sockets := total_sockets t - 1\<rparr>)
          (server_sockets s) s"

text \<open>
  The bulk transfer after \<open>unlistening\<close> was written: \<open>send_fds\<close> over the whole UID index
  until a round sends nothing or the index is empty. \<open>k\<close> counts the \<open>sendmsg\<close> calls.
\<close>

lemma send_fds_scan_collected:
  "send_fds_scan s ps k cnt = (us, fs, es, bad) \<Longrightarrow> length es = length fs \<and> set es \<subseteq> set ps"
proof (induction ps arbitrary: k cnt us fs es bad)
  case Nil
  then show ?case by simp
next
  case (Cons p ps)
  show ?case
  proof (cases "cnt < MAX_DESC_PER_MESSAGE")
    case False
    with Cons.prems show ?thesis by simp
  next
    case True
    show ?thesis
    proof (cases "buf_len (mem s p) = 0")
      case idle: True
      obtain us' fs' es' bad' where r: "send_fds_scan s ps (k + 1) (cnt + 1) = (us', fs', es', bad')"
        by (metis prod_cases4)
      from Cons.IH[OF r] Cons.prems True idle r show ?thesis by auto
    next
      case busy: False
      obtain us' fs' es' bad' where r: "send_fds_scan s ps (k + 1) cnt = (us', fs', es', bad')"
        by (metis prod_cases4)
      from Cons.IH[OF r] Cons.prems True busy r show ?thesis by auto
    qed
  qed
qed

lemma send_fds_shrinks:
  assumes "send_fds s (peer_sockets s) True ok = (s1, n)" and "n \<noteq> 0"
  shows "length (peer_sockets s1) < length (peer_sockets s)"
proof -
  obtain us fs es bad where r: "send_fds_scan s (peer_sockets s) 0 0 = (us, fs, es, bad)"
    by (metis prod_cases4)
  have c: "length es = length fs" "set es \<subseteq> set (peer_sockets s)"
    using send_fds_scan_collected[OF r] by auto
  have n: "n = length fs"
    using assms(1) r by (simp add: send_fds_def Let_def split: if_splits)
  have cl: "\<And>t. peer_sockets (fold (\<lambda>f t. close_fd (epoll_del t f) f) fs t) = peer_sockets t"
    by (induction fs) (simp_all add: close_fd_def epoll_del_def)
  have ps: "peer_sockets s1 = filter (\<lambda>q. q \<notin> set es) (peer_sockets s)"
    using assms(1) r by (auto simp: send_fds_def Let_def cl split: if_splits)
  from n assms(2) c(1) have "es \<noteq> []" by auto
  then obtain x where x: "x \<in> set es" by (cases es) auto
  then have "x \<in> set (peer_sockets s)" using c(2) by auto
  then show ?thesis
    unfolding ps using x length_filter_less[of x "peer_sockets s" "\<lambda>q. q \<notin> set es"] by simp
qed

function bulk_send :: "state \<Rightarrow> env \<Rightarrow> nat \<Rightarrow> state" where
  "bulk_send s e k =
     (case send_fds s (peer_sockets s) True (e_sendmsg e k) of
        (s1, nsent) \<Rightarrow>
          if nsent \<noteq> 0 \<and> peer_sockets s1 \<noteq> [] then bulk_send s1 e (k + 1) else s1)"
  by pat_completeness auto
termination
proof (relation "measure (\<lambda>(s, e, k). length (peer_sockets s))", goal_cases)
  case 1
  show ?case by simp
next
  case (2 s e k s1 nsent)
  then have "send_fds s (peer_sockets s) True (e_sendmsg e k) = (s1, nsent)" and "nsent \<noteq> 0"
    by simp_all
  then show ?case
    using send_fds_shrinks by simp
qed

declare bulk_send.simps [simp del]

text \<open>
  The control connection of an instance that listens. A message that starts with
  \<open>unlisten\<close> closes the TCP listeners; when the reply \<open>unlistening\<close> could be written the
  idle peers are handed over, the rest of the epoll results is skipped
  (\<open>epoll_restart\<close>) and \<open>decay_mode\<close> is set. The result is the state and
  \<open>epoll_restart\<close>.
\<close>

definition EINTR :: int where "EINTR = 4"
definition EAGAIN :: int where "EAGAIN = 11"

definition bytes_of :: "string \<Rightarrow> byte list" where
  "bytes_of str = map (\<lambda>c. of_char c) str"

definition ctrl_conn_listen :: "state \<Rightarrow> env \<Rightarrow> state \<times> bool" where
  "ctrl_conn_listen s e =
     (case e_read e of
        ReadErr errno \<Rightarrow>
          if errno = EINTR \<or> errno = EAGAIN then (s, False)
          else (poll_in (close_fd s (ctrl_socket_conn_fd s)) (ctrl_socket_fd s) CtrlSocket
                  (e_epoll_add e 0), False)
      | ReadData bs \<Rightarrow>
          if bs = [] then
            (poll_in (close_fd s (ctrl_socket_conn_fd s)) (ctrl_socket_fd s) CtrlSocket
               (e_epoll_add e 0), False)
          else if take 8 bs = bytes_of ''unlisten'' then
            let s1 = close_listeners s
            in if \<not> e_write_ok e then (s1, False)
               else
                 let s2 = s1\<lparr>ctrl_out := ctrl_out s1 @ [Unlistening]\<rparr>;
                     s3 = bulk_send s2 e 0
                 in (s3\<lparr>decay_mode := True\<rparr>, True)
          else (s, False))"

text \<open>
  The control connection of an instance that started as a client: it receives \<open>desc\<close>
  messages with descriptors, and \<open>exit\<close> when the old instance is done.
  \<open>RecvDesc ok uids fds\<close> is a \<open>desc\<close> message whose ancillary record has the right
  type (\<open>ok\<close>) and carries \<open>fds\<close>. The code reads one descriptor per UID; reading past
  the descriptors that came is a fault here. A descriptor that cannot be registered is
  closed and its context destroyed, and the code goes on to use the context.
\<close>

fun inherit :: "state \<Rightarrow> env \<Rightarrow> nat \<Rightarrow> int list \<Rightarrow> int list \<Rightarrow> state" where
  "inherit s e k [] fds = s"
| "inherit s e k (uid # uids) fds =
     (if length fds \<le> k then s\<lparr>fault := True\<rparr>
      else
        let s1 = s\<lparr>sockets_inherited := sockets_inherited s + 1,
                   total_sockets := total_sockets s + 1\<rparr>;
            cp = e_new e k;
            s2 = new_peer s1 cp (fds ! k) uid;
            s3 = (if e_epoll_add e k then epoll_add s2 (fds ! k) (Ctx cp)
                  else deallocate_fdctx
                         (close_fd (s2\<lparr>total_sockets := total_sockets s2 - 1\<rparr>) (fds ! k)) cp);
            s4 = (if faf_uid (mem s3 cp) \<noteq> -1 then peer_sockets_insert s3 cp else s3)
        in inherit s4 e (k + 1) uids fds)"

definition ctrl_conn_client :: "state \<Rightarrow> env \<Rightarrow> state" where
  "ctrl_conn_client s e =
     (case e_recvmsg e of
        RecvErr \<Rightarrow> s
      | RecvClosed \<Rightarrow> close_fd s (ctrl_socket_conn_fd s)
      | RecvDesc ok uids fds \<Rightarrow>
          if \<not> ok then s\<lparr>exit_status := Some 1\<rparr> else inherit s e 0 uids fds
      | RecvExit \<Rightarrow>
          let s1 = close_fd s (ctrl_socket_conn_fd s)
          in if e_socket e < 0 then s1
             else (poll_in (s1\<lparr>ctrl_socket_fd := e_socket e\<rparr>) (e_socket e) CtrlSocket
                     (e_epoll_add e 0))\<lparr>ctrl_socket_mode_listen := True\<rparr>
      | RecvOther \<Rightarrow> s)"

section \<open>The event loop\<close>

text \<open>
  The dispatch on one epoll result, in the order of the code: the control listener, the
  control connection, a TCP listener, a peer. The result is \<open>None\<close> when the frame
  parser does not terminate.
\<close>

definition dispatch :: "state \<Rightarrow> target \<Rightarrow> env \<Rightarrow> (state \<times> bool) option" where
  "dispatch s t e =
     (case t of
        CtrlSocket \<Rightarrow> Some (ctrl_accept s e, False)
      | CtrlSocketConn \<Rightarrow>
          if ctrl_socket_mode_listen s then Some (ctrl_conn_listen s e)
          else Some (ctrl_conn_client s e, False)
      | Ctx p \<Rightarrow>
          if is_server (mem s p) \<and> protocol (mem s p) = IPPROTO_TCP then Some (tcp_accept s e, False)
          else (case peer_event s p e of None \<Rightarrow> None | Some s' \<Rightarrow> Some (s', False)))"

text \<open>
  The \<open>for\<close> loop over the results of one \<open>epoll_wait\<close>: it stops at \<open>epoll_restart\<close>, and
  here also when the process has exited.
\<close>

fun handle_events :: "state \<Rightarrow> (target \<times> env) list \<Rightarrow> state option" where
  "handle_events s [] = Some s"
| "handle_events s ((t, e) # evs) =
     (case dispatch s t e of
        None \<Rightarrow> None
      | Some (s1, restart) \<Rightarrow>
          if restart \<or> exit_status s1 \<noteq> None then Some s1 else handle_events s1 evs)"

text \<open>
  One round of \<open>while (total_sockets)\<close>: the signal flag is looked at first; \<open>sig\<close> tells
  whether the signal arrived since the last round; an \<open>epoll_wait\<close> that fails is a round
  without results.
\<close>

definition round :: "state \<Rightarrow> bool \<Rightarrow> (target \<times> env) list \<Rightarrow> state option" where
  "round s sig evs =
     (let s0 = (if sig then s\<lparr>got_sigusr1 := True\<rparr> else s);
          s1 = (if got_sigusr1 s0 then (close_listeners s0)\<lparr>got_sigusr1 := False\<rparr> else s0)
      in handle_events s1 evs)"

text \<open>
  The loop, for a given sequence of rounds. It ends when \<open>total_sockets\<close> is 0; then
  \<open>main\<close> says goodbye on the control connection when it was decaying, and exits with
  status 0.
\<close>

definition finish :: "state \<Rightarrow> bool \<Rightarrow> state" where
  "finish s have_path =
     (let s1 = (if decay_mode s \<and> have_path
                then (close_fd s (ctrl_socket_fd s))\<lparr>ctrl_out := ctrl_out s @ [Exit]\<rparr>
                else s)
      in s1\<lparr>exit_status := Some 0\<rparr>)"

fun main_loop :: "state \<Rightarrow> bool \<Rightarrow> (bool \<times> (target \<times> env) list) list \<Rightarrow> state option" where
  "main_loop s have_path [] = (if total_sockets s = 0 then Some (finish s have_path) else Some s)"
| "main_loop s have_path ((sig, evs) # rounds) =
     (if total_sockets s = 0 then Some (finish s have_path)
      else case round s sig evs of
             None \<Rightarrow> None
           | Some s1 \<Rightarrow> if exit_status s1 \<noteq> None then Some s1 else main_loop s1 have_path rounds)"

section \<open>Start-up\<close>

text \<open>
  \<open>main\<close> up to the event loop. The outcomes of the system calls are given by a record;
  what is written to \<open>stderr\<close> is collected as a list of lines, each named after the call
  that failed. \<open>exit(1)\<close> is the state with \<open>exit_status = Some 1\<close>.
\<close>

datatype family = AF_INET | AF_INET6

definition ECONNREFUSED :: int where
  "ECONNREFUSED = 111"

definition ENOENT :: int where
  "ENOENT = 2"

record addrinfo =
  ai_family :: family
  ai_protocol :: int
  ai_socket :: int
  ai_v6only_ok :: bool
  ai_reuseaddr_ok :: bool
  ai_bind_ok :: bool
  ai_listen_ok :: bool
  ai_new :: ptr
  ai_name :: "byte list"
  ai_epoll_add :: bool

record boot_env =
  b_epoll_create :: int
  b_socket :: int
  b_connect :: "int option"
  b_unlink_ok :: bool
  b_bind_ok :: bool
  b_reuseaddr_ok :: bool
  b_listen_ok :: bool
  b_epoll_add :: bool
  b_send :: int
  b_recv_buf :: string
  b_getaddrinfo :: int
  b_addrs :: "addrinfo list"

type_synonym boot = "string list \<times> state"

definition initial :: "(ptr \<Rightarrow> fd_ctx) \<Rightarrow> state" where
  "initial m = \<lparr>mem = m, allocated = [], fault = False, peer_sockets = [],
                server_sockets = [], ctrl_socket_fd = -1, ctrl_socket_conn_fd = -1,
                ctrl_socket_mode_listen = False, decay_mode = False, sockets_inherited = 0,
                total_sockets = 0, got_sigusr1 = False, epoll = [], writes = [], closed = [],
                ctrl_out = [], exit_status = None\<rparr>"

definition exit_1 :: "string list \<Rightarrow> state \<Rightarrow> string \<Rightarrow> boot" where
  "exit_1 lg s msg = (lg @ [msg], s\<lparr>exit_status := Some 1\<rparr>)"

text \<open>\<open>ctrl_socket_listen\<close>: the lines logged and the value returned.\<close>

definition ctrl_socket_listen :: "boot_env \<Rightarrow> string list \<times> int" where
  "ctrl_socket_listen b =
     (if \<not> b_bind_ok b then ([''bind''], -1)
      else if \<not> b_reuseaddr_ok b then ([''setsockopt(REUSEADDR)''], -1)
      else if \<not> b_listen_ok b then ([''listen''], -1)
      else ([], 0))"

text \<open>\<open>poll_in\<close> with the line it logs.\<close>

definition poll_in_log :: "boot \<Rightarrow> int \<Rightarrow> target \<Rightarrow> bool \<Rightarrow> boot" where
  "poll_in_log bs f t ok =
     (fst bs @ (if ok then [] else [''epoll_ctl'']), poll_in (snd bs) f t ok)"

text \<open>
  The block \<open>if (ctrl_socket_path)\<close>. The value returned by \<open>ctrl_socket_listen\<close> is not
  looked at.
\<close>

definition ctrl_setup :: "state \<Rightarrow> boot_env \<Rightarrow> boot" where
  "ctrl_setup s b =
     (if b_socket b < 0 then exit_1 [] s ''socket(AF_UNIX)''
      else
        case b_connect b of
          Some errno \<Rightarrow>
            if errno = ECONNREFUSED \<or> errno = ENOENT then
              (if errno = ECONNREFUSED \<and> \<not> b_unlink_ok b then exit_1 [] s ''unlink''
               else
                 let lg = fst (ctrl_socket_listen b);
                     (lg1, s1) = poll_in_log (lg, s\<lparr>ctrl_socket_fd := b_socket b\<rparr>)
                                   (b_socket b) CtrlSocket (b_epoll_add b)
                 in (lg1, s1\<lparr>ctrl_socket_mode_listen := True\<rparr>))
            else ([''connect''], s)
        | None \<Rightarrow>
            if b_send b < 0 then exit_1 [] s ''sendmsg''
            else if b_send b = 0 then exit_1 [] s ''unexpected EOF''
            else if take 11 (b_recv_buf b) \<noteq> ''unlistening''
            then exit_1 [] s ''running server reported: ''
            else poll_in_log ([], s\<lparr>ctrl_socket_conn_fd := b_socket b\<rparr>)
                   (b_socket b) CtrlSocketConn (b_epoll_add b))"

text \<open>The loop over the addresses \<open>getaddrinfo\<close> returned.\<close>

fun tcp_listen :: "string list \<Rightarrow> state \<Rightarrow> addrinfo list \<Rightarrow> boot" where
  "tcp_listen lg s [] = (lg, s)"
| "tcp_listen lg s (ai # ais) =
     (if ai_socket ai < 0 then exit_1 lg s ''socket''
      else if ai_family ai = AF_INET6 \<and> \<not> ai_v6only_ok ai
      then exit_1 lg s ''setsockopt(IPV6_ONLY)''
      else if \<not> ai_reuseaddr_ok ai then exit_1 lg s ''setsockopt(REUSEADDR)''
      else if \<not> ai_bind_ok ai then exit_1 lg s ''bind''
      else if \<not> ai_listen_ok ai then exit_1 lg s ''listen''
      else
        let c = ai_new ai;
            s1 = upd s c (\<lambda>x. x\<lparr>refcount := 1, npeers := 0, fd := ai_socket ai,
                                  is_server := True, protocol := ai_protocol ai,
                                  buf := ai_name ai\<rparr>);
            s2 = s1\<lparr>allocated := c # allocated s1,
                     server_sockets := server_sockets s1 @ [c]\<rparr>
        in tcp_listen lg s2 ais)"

text \<open>The listeners enter the epoll set, in the order of \<open>server_sockets\<close>.\<close>

fun poll_servers :: "boot \<Rightarrow> (ptr \<times> bool) list \<Rightarrow> boot" where
  "poll_servers bs [] = bs"
| "poll_servers bs ((c, ok) # cs) =
     poll_servers (poll_in_log bs (fd (mem (snd bs) c)) (Ctx c) ok) cs"

definition startup :: "bool \<Rightarrow> (ptr \<Rightarrow> fd_ctx) \<Rightarrow> boot_env \<Rightarrow> boot" where
  "startup have_path m b =
     (if b_epoll_create b < 0 then exit_1 [] (initial m) ''epoll_create''
      else
        let (lg1, s1) = (if have_path then ctrl_setup (initial m) b else ([], initial m))
        in if exit_status s1 \<noteq> None then (lg1, s1)
           else if b_getaddrinfo b \<noteq> 0 then exit_1 lg1 s1 ''getaddrinfo''
           else
             let (lg2, s2) = tcp_listen lg1 s1 (b_addrs b)
             in if exit_status s2 \<noteq> None then (lg2, s2)
                else
                  let (lg3, s3) = poll_servers (lg2, s2)
                                    (zip (server_sockets s2) (map ai_epoll_add (b_addrs b)))
                  in (lg3, s3\<lparr>total_sockets := int (length (server_sockets s3))\<rparr>))"

section \<open>What destruction leaves alone\<close>

text \<open>
  A property that holds across each elementary step of the destruction and is transitive
  holds across the whole destruction.
\<close>

lemma dealloc_rel:
  assumes tr: "\<And>a b c. R a b \<Longrightarrow> R b c \<Longrightarrow> R a c"
    and dec: "\<And>s q. R s (dec_refcount s q)"
    and flt: "\<And>s. R s (s\<lparr>fault := True\<rparr>)"
    and fin: "\<And>s p. R s (free_ctx (upd s p (\<lambda>c. c\<lparr>npeers := 0\<rparr>)) p)"
  shows "R s (deallocate_fdctx s p)"
    and "R s' (free_ctx (proxy_peers_unref_all s' p' i) p')"
proof (induction s p and s' p' i rule: deallocate_fdctx_proxy_peers_unref_all.induct)
  case (1 s p)
  then show ?case by (simp add: deallocate_fdctx.simps)
next
  case (2 s p i)
  show ?case
  proof (cases "i < npeers (mem s p)")
    case False
    then show ?thesis
      by (subst proxy_peers_unref_all.simps) (simp add: fin)
  next
    case True
    define q where "q = peers (mem s p) ! i"
    define s1 where "s1 = dec_refcount s q"
    have r1: "R s s1" by (simp add: s1_def dec)
    show ?thesis
    proof (cases "refcount (mem s1 q) = 0")
      case z: True
      show ?thesis
      proof (cases "q \<in> set (allocated s1)")
        case a: True
        have e: "proxy_peers_unref_all s p i =
                 proxy_peers_unref_all (deallocate_fdctx s1 q) p (i + 1)"
          using True z a
          by (subst proxy_peers_unref_all.simps)
             (simp add: Let_def q_def[symmetric] s1_def[symmetric])
        show ?thesis unfolding e
          using tr[OF r1 tr[OF 2(1)[OF True q_def s1_def z a] 2(2)[OF True q_def s1_def z a]]] .
      next
        case a: False
        have e: "proxy_peers_unref_all s p i =
                 proxy_peers_unref_all (s1\<lparr>fault := True\<rparr>) p (i + 1)"
          using True z a
          by (subst proxy_peers_unref_all.simps)
             (simp add: Let_def q_def[symmetric] s1_def[symmetric])
        show ?thesis unfolding e
          using tr[OF r1 tr[OF flt 2(3)[OF True q_def s1_def z a]]] .
      qed
    next
      case z: False
      have e: "proxy_peers_unref_all s p i = proxy_peers_unref_all s1 p (i + 1)"
        using True z
        by (subst proxy_peers_unref_all.simps)
           (simp add: Let_def q_def[symmetric] s1_def[symmetric])
      show ?thesis unfolding e
        using tr[OF r1 2(4)[OF True q_def s1_def z]] .
    qed
  qed
qed

text \<open>
  \<open>skel\<close> forgets what the destruction can change: the reference counts, the cache
  lengths, the list of allocated contexts and the fault flag. Everything else is as
  before.
\<close>

definition skel :: "state \<Rightarrow> state" where
  "skel s = s\<lparr>mem := (\<lambda>x. (mem s x)\<lparr>refcount := 0, npeers := 0\<rparr>), allocated := [], fault := False\<rparr>"

lemma skel_prims:
  "skel (dec_refcount s q) = skel s"
  "skel (inc_refcount s q) = skel s"
  "skel (s\<lparr>fault := b\<rparr>) = skel s"
  "skel (free_ctx s p) = skel s"
  "skel (upd s p (\<lambda>c. c\<lparr>npeers := n\<rparr>)) = skel s"
  by (auto simp: skel_def dec_refcount_def inc_refcount_def free_ctx_def upd_def fun_eq_iff)

lemma skel_deallocate: "skel (deallocate_fdctx s p) = skel s"
proof (rule dealloc_rel(1)[where R = "\<lambda>a b. skel b = skel a"])
  show "\<And>a b c. skel b = skel a \<Longrightarrow> skel c = skel b \<Longrightarrow> skel c = skel a"
    by (rule trans)
  show "\<And>s q. skel (dec_refcount s q) = skel s" by (rule skel_prims)
  show "\<And>s. skel (s\<lparr>fault := True\<rparr>) = skel s" by (rule skel_prims)
  show "\<And>s p. skel (free_ctx (upd s p (\<lambda>c. c\<lparr>npeers := 0\<rparr>)) p) = skel s"
    by (simp only: skel_prims)
qed

lemma skel_unref: "skel (unref s q) = skel s"
  by (simp add: unref_def Let_def skel_prims skel_deallocate)

lemma skel_fields:
  assumes "skel s' = skel s"
  shows "faf_uid (mem s' x) = faf_uid (mem s x)"
    and "fd (mem s' x) = fd (mem s x)"
    and "peers (mem s' x) = peers (mem s x)"
    and "buf (mem s' x) = buf (mem s x)"
    and "buf_len (mem s' x) = buf_len (mem s x)"
    and "is_server (mem s' x) = is_server (mem s x)"
    and "protocol (mem s' x) = protocol (mem s x)"
    and "peer_sockets s' = peer_sockets s"
    and "decay_mode s' = decay_mode s"
    and "writes s' = writes s"
    and "closed s' = closed s"
    and "total_sockets s' = total_sockets s"
    and "epoll s' = epoll s"
proof -
  have m: "(mem s' x)\<lparr>refcount := 0, npeers := 0\<rparr> = (mem s x)\<lparr>refcount := 0, npeers := 0\<rparr>"
    using assms by (auto simp: skel_def dest!: arg_cong[where f = mem] dest: fun_cong[where x = x])
  show "faf_uid (mem s' x) = faf_uid (mem s x)" using arg_cong[OF m, of faf_uid] by simp
  show "fd (mem s' x) = fd (mem s x)" using arg_cong[OF m, of fd] by simp
  show "peers (mem s' x) = peers (mem s x)" using arg_cong[OF m, of peers] by simp
  show "buf (mem s' x) = buf (mem s x)" using arg_cong[OF m, of buf] by simp
  show "buf_len (mem s' x) = buf_len (mem s x)" using arg_cong[OF m, of buf_len] by simp
  show "is_server (mem s' x) = is_server (mem s x)" using arg_cong[OF m, of is_server] by simp
  show "protocol (mem s' x) = protocol (mem s x)" using arg_cong[OF m, of protocol] by simp
  show "peer_sockets s' = peer_sockets s" using arg_cong[OF assms, of peer_sockets] by (simp add: skel_def)
  show "decay_mode s' = decay_mode s" using arg_cong[OF assms, of decay_mode] by (simp add: skel_def)
  show "writes s' = writes s" using arg_cong[OF assms, of writes] by (simp add: skel_def)
  show "closed s' = closed s" using arg_cong[OF assms, of closed] by (simp add: skel_def)
  show "total_sockets s' = total_sockets s" using arg_cong[OF assms, of total_sockets] by (simp add: skel_def)
  show "epoll s' = epoll s" using arg_cong[OF assms, of epoll] by (simp add: skel_def)
qed

section \<open>The cache as a list\<close>

text \<open>The cache as a list, newest entry first, and the shape the code keeps it in.\<close>

definition cache :: "state \<Rightarrow> ptr \<Rightarrow> ptr list" where
  "cache s c = take (npeers (mem s c)) (peers (mem s c))"

definition wf_cache :: "state \<Rightarrow> ptr \<Rightarrow> bool" where
  "wf_cache s c \<longleftrightarrow> length (peers (mem s c)) = MAX_PEERS \<and> npeers (mem s c) \<le> MAX_PEERS"

lemma shift_right_spec:
  "shift_right ps prev i n = (ps', prev') \<Longrightarrow> i \<le> n \<Longrightarrow> n \<le> length ps \<Longrightarrow>
   length ps' = length ps \<and>
   (\<forall>j. j < length ps \<longrightarrow>
        ps' ! j = (if j < i \<or> n \<le> j then ps ! j else if j = i then prev else ps ! (j - 1))) \<and>
   prev' = (if i = n then prev else ps ! (n - 1))"
proof (induction ps prev i n arbitrary: ps' prev' rule: shift_right.induct)
  case (1 ps prev i n)
  show ?case
  proof (cases "i < n")
    case False
    with 1(2,3) show ?thesis by (subst (asm) shift_right.simps) auto
  next
    case True
    have e: "shift_right (ps[i := prev]) (ps ! i) (i + 1) n = (ps', prev')"
      using 1(2) True by (subst (asm) shift_right.simps) simp
    from 1(1)[OF True e] True 1(4)
    have ih: "length ps' = length ps"
      "\<And>j. j < length ps \<Longrightarrow> ps' ! j = (if j < i + 1 \<or> n \<le> j then ps[i := prev] ! j
            else if j = i + 1 then ps ! i else ps[i := prev] ! (j - 1))"
      "prev' = (if i + 1 = n then ps ! i else ps[i := prev] ! (n - 1))"
      by auto
    show ?thesis
    proof (intro conjI allI impI)
      show "length ps' = length ps" by (rule ih(1))
    next
      fix j assume j: "j < length ps"
      show "ps' ! j = (if j < i \<or> n \<le> j then ps ! j else if j = i then prev else ps ! (j - 1))"
        using ih(2)[OF j] True j 1(4) by (auto simp: nth_list_update)
    next
      show "prev' = (if i = n then prev else ps ! (n - 1))"
        using ih(3) True 1(4) by (auto simp: nth_list_update)
    qed
  qed
qed

lemma add_array:
  assumes "shift_right ps (ps ! 0) 1 n = (ps', prev')" and "n < length ps"
  shows "take (Suc n) ((ps'[n := prev'])[0 := p]) = p # take n ps"
    and "length ((ps'[n := prev'])[0 := p]) = length ps"
proof -
  show l: "length ((ps'[n := prev'])[0 := p]) = length ps"
  proof (cases "n = 0")
    case True
    then show ?thesis using assms by (subst (asm) shift_right.simps) auto
  next
    case False
    then show ?thesis using shift_right_spec[OF assms(1)] assms(2) by simp
  qed
  show "take (Suc n) ((ps'[n := prev'])[0 := p]) = p # take n ps"
  proof (cases "n = 0")
    case True
    then have "ps' = ps" using assms by (subst (asm) shift_right.simps) auto
    then show ?thesis using True assms(2) by (cases ps) auto
  next
    case False
    then have s: "length ps' = length ps"
      "\<And>j. j < length ps \<Longrightarrow>
        ps' ! j = (if j < 1 \<or> n \<le> j then ps ! j else if j = 1 then ps ! 0 else ps ! (j - 1))"
      "prev' = (if 1 = n then ps ! 0 else ps ! (n - 1))"
      using shift_right_spec[OF assms(1)] assms(2) by auto
    show ?thesis
    proof (rule nth_equalityI)
      show "length (take (Suc n) ((ps'[n := prev'])[0 := p])) = length (p # take n ps)"
        using s(1) assms(2) by simp
    next
      fix j assume "j < length (take (Suc n) ((ps'[n := prev'])[0 := p]))"
      then have j: "j \<le> n" using s(1) assms(2) by simp
      show "take (Suc n) ((ps'[n := prev'])[0 := p]) ! j = (p # take n ps) ! j"
      proof (cases j)
        case 0
        have "0 < length ps" using assms(2) by auto
        then have "0 < length (ps'[n := prev'])" using s(1) by simp
        then show ?thesis using 0 by simp
      next
        case (Suc k)
        then show ?thesis using j s assms(2) False by (auto simp: nth_list_update)
      qed
    qed
  qed
qed

lemma allocated_prims:
  "allocated (dec_refcount s q) = allocated s"
  "allocated (inc_refcount s q) = allocated s"
  "allocated (upd s p f) = allocated s"
  "allocated (s\<lparr>fault := b\<rparr>) = allocated s"
  by (simp_all add: dec_refcount_def inc_refcount_def upd_def)

lemma dealloc_survivor:
  "set (allocated (deallocate_fdctx s p)) \<subseteq> set (allocated s) \<and>
   (\<forall>x \<in> set (allocated (deallocate_fdctx s p)).
      npeers (mem (deallocate_fdctx s p) x) = npeers (mem s x))"
proof (rule dealloc_rel(1)[where R = "\<lambda>a b. set (allocated b) \<subseteq> set (allocated a) \<and>
   (\<forall>x \<in> set (allocated b). npeers (mem b x) = npeers (mem a x))"], goal_cases)
  case (1 a b c)
  then show ?case by auto
next
  case (2 s q)
  show ?case by (simp add: dec_refcount_def upd_def)
next
  case (3 s)
  show ?case by simp
next
  case (4 s p)
  show ?case by (auto simp: free_ctx_def upd_def)
qed

lemma dealloc_frees:
  "p \<notin> set (allocated (deallocate_fdctx s p))"
proof -
  have "p \<notin> set (allocated (free_ctx (proxy_peers_unref_all s p 0) p))"
    by (simp add: free_ctx_def)
  then show ?thesis by (simp add: deallocate_fdctx.simps)
qed

lemma unref_survivor:
  "set (allocated (unref s q)) \<subseteq> set (allocated s)"
  "x \<in> set (allocated (unref s q)) \<Longrightarrow> npeers (mem (unref s q) x) = npeers (mem s x)"
  using dealloc_survivor[of "dec_refcount s q" q]
  by (auto simp: unref_def Let_def allocated_prims npeers_dec_refcount)

lemma unref_keeps:
  "refcount (mem s q) \<noteq> 1 \<Longrightarrow> unref s q = dec_refcount s q"
  by (simp add: unref_def Let_def refcount_dec_refcount)

lemma unref_destroys:
  "refcount (mem s q) = 1 \<Longrightarrow> q \<in> set (allocated s) \<Longrightarrow> q \<notin> set (allocated (unref s q))"
  by (simp add: unref_def Let_def refcount_dec_refcount allocated_prims dealloc_frees)

lemma peers_unref: "peers (mem (unref s q) x) = peers (mem s x)"
  by (rule skel_fields(3)[OF skel_unref])

lemma add_not_full:
  assumes "wf_cache s c" and "npeers (mem s c) < MAX_PEERS"
  shows "cache (proxy_peers_add s c p) c = p # cache s c"
    and "wf_cache (proxy_peers_add s c p) c"
    and "refcount (mem (proxy_peers_add s c p) p) = refcount (mem s p) + 1"
    and "x \<noteq> p \<Longrightarrow> refcount (mem (proxy_peers_add s c p) x) = refcount (mem s x)"
    and "allocated (proxy_peers_add s c p) = allocated s"
    and "skel (proxy_peers_add s c p) = skel (upd s c (\<lambda>y. y\<lparr>peers := peers (mem (proxy_peers_add s c p) c)\<rparr>))"
proof -
  define n where "n = npeers (mem s c)"
  obtain ps' prev' where sr: "shift_right (peers (mem s c)) (peers (mem s c) ! 0) 1 n = (ps', prev')"
    by (cases "shift_right (peers (mem s c)) (peers (mem s c) ! 0) 1 n") auto
  have nl: "n < length (peers (mem s c))"
    using assms by (simp add: wf_cache_def n_def)
  define s' where "s' = upd (inc_refcount (upd s c (\<lambda>x. x\<lparr>peers := (ps'[n := prev'])[0 := p]\<rparr>)) p)
                           c (\<lambda>x. x\<lparr>npeers := npeers x + 1\<rparr>)"
  have e: "proxy_peers_add s c p = s'"
    using assms(2) sr
    by (subst proxy_peers_add.simps) (simp add: Let_def n_def[symmetric] s'_def)
  have pc: "peers (mem s' c) = (ps'[n := prev'])[0 := p]"
    by (simp add: s'_def upd_def inc_refcount_def)
  have nc: "npeers (mem s' c) = Suc n"
    by (simp add: s'_def upd_def inc_refcount_def n_def)
  show "cache (proxy_peers_add s c p) c = p # cache s c"
    unfolding e cache_def pc nc using add_array(1)[OF sr nl] by (simp add: n_def)
  show "wf_cache (proxy_peers_add s c p) c"
    unfolding e wf_cache_def pc nc using add_array(2)[OF sr nl] assms
    by (simp add: wf_cache_def n_def)
  show "refcount (mem (proxy_peers_add s c p) p) = refcount (mem s p) + 1"
    unfolding e by (simp add: s'_def upd_def inc_refcount_def)
  show "x \<noteq> p \<Longrightarrow> refcount (mem (proxy_peers_add s c p) x) = refcount (mem s x)"
    unfolding e by (simp add: s'_def upd_def inc_refcount_def)
  show "allocated (proxy_peers_add s c p) = allocated s"
    unfolding e by (simp add: s'_def upd_def inc_refcount_def)
  show "skel (proxy_peers_add s c p) = skel (upd s c (\<lambda>y. y\<lparr>peers := peers (mem (proxy_peers_add s c p) c)\<rparr>))"
    unfolding e pc by (auto simp: s'_def skel_def upd_def inc_refcount_def fun_eq_iff)
qed

lemma add_full:
  fixes p :: ptr
  assumes "wf_cache s c" and "npeers (mem s c) = MAX_PEERS"
  defines "e \<equiv> unref s (last (cache s c))"
  defines "s' \<equiv> proxy_peers_add s c p"
  shows "wf_cache s' c"
    and "refcount (mem s' p) = refcount (mem e p) + 1"
    and "x \<noteq> p \<Longrightarrow> refcount (mem s' x) = refcount (mem e x)"
    and "allocated s' = allocated e"
    and "c \<in> set (allocated e) \<Longrightarrow> cache s' c = p # butlast (cache s c)"
proof -
  have len: "length (peers (mem s c)) = MAX_PEERS"
    using assms(1) by (simp add: wf_cache_def)
  have ne0: "peers (mem s c) \<noteq> []"
    using len by (auto simp: MAX_PEERS_def)
  have lc: "last (cache s c) = peers (mem s c) ! (npeers (mem s c) - 1)"
    using assms(2) len last_conv_nth[OF ne0] by (simp add: cache_def)
  define s2 where "s2 = upd e c (\<lambda>x. x\<lparr>npeers := npeers x - 1\<rparr>)"
  have un: "proxy_peers_add s c p = proxy_peers_add s2 c p"
    using assms(2)
    by (subst proxy_peers_add.simps) (simp add: Let_def s2_def e_def lc)
  have pe: "peers (mem s2 c) = peers (mem s c)"
    by (simp add: s2_def upd_def e_def peers_unref)
  have ne: "npeers (mem e c) \<le> MAX_PEERS"
    using npeers_unref_le[of s "last (cache s c)" c] assms(2) by (simp add: e_def)
  have n2: "npeers (mem s2 c) = npeers (mem e c) - 1"
    by (simp add: s2_def upd_def)
  have lt: "npeers (mem s2 c) < MAX_PEERS"
    using ne n2 by (simp add: MAX_PEERS_def)
  have wf2: "wf_cache s2 c"
    using lt pe len by (simp add: wf_cache_def)
  show "wf_cache s' c"
    unfolding s'_def un by (rule add_not_full(2)[OF wf2 lt])
  have r2: "\<And>y. refcount (mem s2 y) = refcount (mem e y)"
    by (simp add: s2_def upd_def)
  show "refcount (mem s' p) = refcount (mem e p) + 1"
    unfolding s'_def un using add_not_full(3)[OF wf2 lt, of p] r2 by simp
  show "x \<noteq> p \<Longrightarrow> refcount (mem s' x) = refcount (mem e x)"
    unfolding s'_def un using add_not_full(4)[OF wf2 lt, of x p] r2 by simp
  show "allocated s' = allocated e"
    unfolding s'_def un using add_not_full(5)[OF wf2 lt, of p] by (simp add: s2_def upd_def)
  show "cache s' c = p # butlast (cache s c)" if "c \<in> set (allocated e)"
  proof -
    have "npeers (mem e c) = npeers (mem s c)"
      using unref_survivor(2)[of c s "last (cache s c)"] that by (simp add: e_def)
    then have "npeers (mem s2 c) = MAX_PEERS - 1"
      using n2 assms(2) by simp
    then have "cache s2 c = butlast (cache s c)"
      using pe assms(2) len butlast_conv_take[of "peers (mem s c)"] by (simp add: cache_def)
    then show ?thesis
      unfolding s'_def un using add_not_full(1)[OF wf2 lt, of p] by simp
  qed
qed

section \<open>Byte order\<close>

lemma unat_byte_of_int: "unat (word_of_int x :: byte) = nat (x mod 256)"
  by (simp add: unat_eq_nat_uint uint_word_of_int)

lemma be16_arith:
  assumes "0 \<le> (v::int)" and "v < 65536"
  shows "((v div 256) mod 256) * 256 + v mod 256 = v"
proof -
  have "v div 256 < 256" using assms by simp
  moreover have "0 \<le> v div 256" using assms by simp
  ultimately have "(v div 256) mod 256 = v div 256" by simp
  then show ?thesis by simp
qed

lemma be32_arith:
  assumes "0 \<le> (v::int)" and "v < 4294967296"
  shows "((v div 16777216) mod 256) * 16777216 + ((v div 65536) mod 256) * 65536
     + ((v div 256) mod 256) * 256 + v mod 256 = v"
proof -
  define a where "a = v div 256"
  define b where "b = a div 256"
  define c where "c = b div 256"
  have ab: "v div 65536 = b"
    using zdiv_zmult2_eq[of 256 v 256] by (simp add: a_def b_def)
  have bc: "v div 16777216 = c"
    using zdiv_zmult2_eq[of 256 v 65536] ab by (simp add: c_def)
  have e1: "v = 256 * a + v mod 256" by (simp add: a_def)
  have e2: "a = 256 * b + a mod 256" by (simp add: b_def)
  have e3: "b = 256 * c + b mod 256" by (simp add: c_def)
  have r: "0 \<le> v mod 256" "0 \<le> a mod 256" "0 \<le> b mod 256" by simp_all
  have c0: "0 \<le> c" using assms by (simp add: c_def b_def a_def)
  have "c < 256" using e1 e2 e3 r assms(2) by linarith
  then have cm: "c mod 256 = c" using c0 by simp
  show ?thesis
    unfolding ab bc a_def[symmetric] cm using e1 e2 e3 by linarith
qed

lemma ntohs_htons:
  assumes "0 \<le> v" and "v < 65536"
  shows "int (unat (word_of_int (v div 256) :: byte) * 256 + unat (word_of_int v :: byte)) = v"
proof -
  have "0 \<le> (v div 256) mod 256" "0 \<le> v mod 256" by simp_all
  then show ?thesis
    using be16_arith[OF assms] unfolding unat_byte_of_int by simp
qed

lemma int_be32_sum:
  assumes "0 \<le> a" "0 \<le> b" "0 \<le> c" "0 \<le> d"
  shows "int (nat a * 16777216 + nat b * 65536 + nat c * 256 + nat d)
         = a * 16777216 + b * 65536 + c * 256 + d"
  using assms by simp

lemma ntohl_htonl:
  assumes "0 \<le> v" and "v < 4294967296"
  shows "int (unat (word_of_int (v div 16777216) :: byte) * 16777216
            + unat (word_of_int (v div 65536) :: byte) * 65536
            + unat (word_of_int (v div 256) :: byte) * 256
            + unat (word_of_int v :: byte)) = v"
proof -
  have n: "0 \<le> (v div 16777216) mod 256" "0 \<le> (v div 65536) mod 256"
       "0 \<le> (v div 256) mod 256" "0 \<le> v mod 256" by simp_all
  show ?thesis
    unfolding unat_byte_of_int int_be32_sum[OF n] by (rule be32_arith[OF assms])
qed

section \<open>The UID index and one announce frame\<close>

lemma bufsize_val: "FDCTX_CLIENT_BUFSIZE = 3928"
  by (simp add: FDCTX_CLIENT_BUFSIZE_def sizeof_fd_ctx_def)

lemma set_insert_present:
  "set_find key (key p) xs = Some a \<Longrightarrow> set_insert key p xs = xs"
  by (induction xs) (auto split: if_splits)

lemma set_find_cong:
  "(\<And>q. q \<in> set xs \<Longrightarrow> key q = key' q) \<Longrightarrow> set_find key k xs = set_find key' k xs"
  by (induction xs) auto

lemma set_find_mem: "set_find key k xs = Some a \<Longrightarrow> a \<in> set xs \<and> key a = k"
  by (induction xs) (auto split: if_splits)

lemma announce_read:
  assumes "0 \<le> u" and "u < 65536" and "6 \<le> length b"
  shows "ntohl_at (buf_write b 0 (announce u)) 0 = 2"
    and "ntohs_at (buf_write b 0 (announce u)) 4 = u"
proof -
  have w: "buf_write b 0 (announce u) =
           [0, 0, 0, 2, word_of_int (u div 256), word_of_int u] @ drop 6 b"
    by (simp add: buf_write_def announce_def htonl_bytes_def htons_bytes_def eval_nat_numeral)
  show "ntohl_at (buf_write b 0 (announce u)) 0 = 2"
    unfolding w by (simp add: ntohl_at_def)
  have "ntohs_at (buf_write b 0 (announce u)) 4
        = int (unat (word_of_int (u div 256) :: byte) * 256 + unat (word_of_int u :: byte))"
    unfolding w by (simp add: ntohs_at_def nat_add_distrib)
  then show "ntohs_at (buf_write b 0 (announce u)) 4 = u"
    using ntohs_htons[OF assms(1,2)] by simp
qed

lemma announce_duplicate:
  assumes uid: "faf_uid (mem s p) = -1"
    and notin: "p \<notin> set (peer_sockets s)"
    and held_by: "peer_sockets_find s u = Some a"
    and nodecay: "\<not> decay_mode s"
    and empty: "buf_len (mem s p) = 0"
    and cap: "int (length (buf (mem s p))) = FDCTX_CLIENT_BUFSIZE"
    and u: "0 \<le> u" "u < 65536"
    and rd: "e_read e = ReadData (announce u)"
  shows "\<exists>s'. peer_event s p e = Some s' \<and> faf_uid (mem s' p) = u \<and>
              peer_sockets s' = peer_sockets s \<and> peer_sockets_find s' u = Some a \<and>
              a \<noteq> p \<and> mem s' a = mem s a \<and> closed s' = closed s \<and>
              total_sockets s' = total_sockets s"
proof -
  define b1 where "b1 = buf_write (buf (mem s p)) 0 (announce u)"
  define s1 where "s1 = append_read s p (announce u)"
  define s2 where "s2 = upd s1 p (\<lambda>c. c\<lparr>faf_uid := ntohs_at (buf c) 4\<rparr>)"
  define s3 where "s3 = peer_sockets_insert s2 p"
  have len: "6 \<le> length (buf (mem s p))"
    using cap by (simp add: bufsize_val)
  have la: "length (announce u) = 6"
    by (simp add: announce_def htonl_bytes_def htons_bytes_def)
  have m1: "buf (mem s1 p) = b1" "buf_len (mem s1 p) = 6" "faf_uid (mem s1 p) = -1"
    by (simp_all add: s1_def append_read_def upd_def b1_def empty la uid)
  have d1: "decay_mode s1 = decay_mode s" "peer_sockets s1 = peer_sockets s"
    by (simp_all add: s1_def append_read_def upd_def)
  have sz: "ntohl_at b1 0 = 2" and us: "ntohs_at b1 4 = u"
    using announce_read[OF u len] by (simp_all add: b1_def)
  have m2: "faf_uid (mem s2 p) = u" "buf_len (mem s2 p) = 6" "peer_sockets s2 = peer_sockets s"
    "\<And>x. x \<noteq> p \<Longrightarrow> mem s2 x = mem s x"
    by (simp_all add: s2_def upd_def m1 us d1) (simp add: s1_def append_read_def upd_def)
  have ap: "a \<in> set (peer_sockets s)" "faf_uid (mem s a) = u"
    using set_find_mem[OF held_by[unfolded peer_sockets_find_def]] by (simp_all add: uid_of_def)
  have anp: "a \<noteq> p" using ap(1) notin by auto
  have keys: "\<And>q. q \<in> set (peer_sockets s) \<Longrightarrow> uid_of s2 q = uid_of s q"
  proof -
    fix q assume "q \<in> set (peer_sockets s)"
    then have "q \<noteq> p" using notin by auto
    then show "uid_of s2 q = uid_of s q" using m2(4) by (simp add: uid_of_def)
  qed
  have f2: "set_find (uid_of s2) u (peer_sockets s) = Some a"
    using set_find_cong[of "peer_sockets s" "uid_of s2" "uid_of s" u] keys held_by
    by (simp add: peer_sockets_find_def)
  have "set_find (uid_of s2) (uid_of s2 p) (peer_sockets s2) = Some a"
    using f2 m2 by (simp add: uid_of_def)
  then have ins: "peer_sockets s3 = peer_sockets s"
    using set_insert_present[of "uid_of s2" p "peer_sockets s2" a] m2(3)
    by (simp add: s3_def peer_sockets_insert_def)
  have m3: "mem s3 = mem s2" "decay_mode s3 = decay_mode s" "closed s3 = closed s"
    "total_sockets s3 = total_sockets s"
    by (simp_all add: s3_def peer_sockets_insert_def s2_def s1_def append_read_def upd_def)
  have pl2: "parse_loop s3 p 6 = Some (s3, 6, True)"
    by (subst parse_loop.simps) (simp add: m3 m2)
  have pl1: "parse_loop s1 p 0 = parse_loop s3 p 6"
    by (subst parse_loop.simps)
       (simp add: m1 sz int32_of_uint32_def bufsize_val Let_def s2_def[symmetric] s3_def[symmetric])
  define s4 where "s4 = compact s3 p 6"
  have m4: "mem s4 = (mem s3)(p := (mem s3 p)\<lparr>buf_len := 0\<rparr>)" "decay_mode s4 = decay_mode s"
    "peer_sockets s4 = peer_sockets s" "closed s4 = closed s" "total_sockets s4 = total_sockets s"
    by (simp_all add: s4_def compact_def Let_def m3 m2 upd_def ins)
  have ne: "announce u \<noteq> []"
    using la by auto
  have ev: "peer_event s p e = Some s4"
    using nodecay rd ne
    by (simp add: peer_event_def s1_def[symmetric] pl1 pl2 s4_def[symmetric] m4)
  have "faf_uid (mem s4 p) = u" by (simp add: m4 m3 m2)
  moreover have "mem s4 a = mem s a" using anp by (simp add: m4 m3 m2)
  moreover have "peer_sockets_find s4 u = Some a"
  proof -
    have "\<And>q. q \<in> set (peer_sockets s) \<Longrightarrow> uid_of s4 q = uid_of s q"
    proof -
      fix q assume "q \<in> set (peer_sockets s)"
      then have "q \<noteq> p" using notin by auto
      then show "uid_of s4 q = uid_of s q" using m2(4) by (simp add: uid_of_def m4 m3)
    qed
    then show ?thesis
      using set_find_cong[of "peer_sockets s" "uid_of s4" "uid_of s" u] held_by
      by (simp add: peer_sockets_find_def m4)
  qed
  ultimately show ?thesis
    using ev m4 anp by auto
qed

section \<open>Lookups and closed connections\<close>

lemma find_loop_hit:
  "find_loop m ps n uid i = Some q \<Longrightarrow> faf_uid (m q) = uid \<and> (\<exists>j. i \<le> j \<and> j < n \<and> ps ! j = q)"
proof (induction m ps n uid i rule: find_loop.induct)
  case (1 m ps n uid i)
  show ?case
  proof (cases "i < n")
    case False
    with 1(2) show ?thesis by (subst (asm) find_loop.simps) simp
  next
    case True
    show ?thesis
    proof (cases "faf_uid (m (ps ! i)) = uid")
      case hit: True
      with 1(2) True have "q = ps ! i" by (subst (asm) find_loop.simps) simp
      with hit True show ?thesis by auto
    next
      case miss: False
      with 1(2) True have "find_loop m ps n uid (i + 1) = Some q"
        by (subst (asm) find_loop.simps) simp
      from 1(1)[OF True miss this] obtain j where "i + 1 \<le> j" "j < n" "ps ! j = q"
        and "faf_uid (m q) = uid" by auto
      then have "i \<le> j \<and> j < n \<and> ps ! j = q" by simp
      with \<open>faf_uid (m q) = uid\<close> show ?thesis by blast
    qed
  qed
qed

lemma proxy_peers_find_hit:
  "proxy_peers_find s c uid = Some q \<Longrightarrow> faf_uid (mem s q) = uid"
  using find_loop_hit[of "mem s" "peers (mem s c)" "npeers (mem s c)" uid 0 q]
  by (simp add: proxy_peers_find_def)



section \<open>Buffers\<close>

lemma length_buf_write:
  "nat i + length bs \<le> length b \<Longrightarrow> length (buf_write b i bs) = length b"
  by (simp add: buf_write_def)

lemma nth_region:
  assumes "buf_read b i n = bs" and "k < length bs"
  shows "b ! (nat i + k) = bs ! k"
proof -
  have bs: "bs = take (nat n) (drop (nat i) b)"
    using assms(1) by (simp add: buf_read_def)
  have k: "k < length (drop (nat i) b)" "k < nat n"
    using assms(2) unfolding bs by simp_all
  then have "nat i \<le> length b" by simp
  then have "drop (nat i) b ! k = b ! (nat i + k)" by simp
  then show ?thesis unfolding bs using k by simp
qed

lemma ntohl_at_sub:
  assumes "buf_read b i n = bs" and "0 \<le> i" and "0 \<le> k" and "nat k + 4 \<le> length bs"
  shows "ntohl_at b (i + k) = ntohl_at bs k"
proof -
  have e: "nat (i + k) = nat i + nat k" "nat (i + k + 1) = nat i + (nat k + 1)"
    "nat (i + k + 2) = nat i + (nat k + 2)" "nat (i + k + 3) = nat i + (nat k + 3)"
    "nat (k + 1) = nat k + 1" "nat (k + 2) = nat k + 2" "nat (k + 3) = nat k + 3"
    using assms(2,3) by simp_all
  show ?thesis
    unfolding ntohl_at_def e
    using nth_region[OF assms(1), of "nat k"] nth_region[OF assms(1), of "nat k + 1"]
      nth_region[OF assms(1), of "nat k + 2"] nth_region[OF assms(1), of "nat k + 3"] assms(4)
    by simp
qed

lemma ntohs_at_sub:
  assumes "buf_read b i n = bs" and "0 \<le> i" and "0 \<le> k" and "nat k + 2 \<le> length bs"
  shows "ntohs_at b (i + k) = ntohs_at bs k"
proof -
  have e: "nat (i + k) = nat i + nat k" "nat (i + k + 1) = nat i + (nat k + 1)"
    "nat (k + 1) = nat k + 1"
    using assms(2,3) by simp_all
  show ?thesis
    unfolding ntohs_at_def e
    using nth_region[OF assms(1), of "nat k"] nth_region[OF assms(1), of "nat k + 1"] assms(4)
    by simp
qed

lemma length_htonl_bytes [simp]: "length (htonl_bytes v) = 4"
  by (simp add: htonl_bytes_def)

lemma length_htons_bytes [simp]: "length (htons_bytes v) = 2"
  by (simp add: htons_bytes_def)

lemma length_addressed [simp]: "length (addressed port destuid payload) = 8 + length payload"
  by (simp add: addressed_def)

lemma length_announce [simp]: "length (announce u) = 6"
  by (simp add: announce_def)

lemma ntohl_at_htonl:
  assumes "0 \<le> v" and "v < 4294967296"
  shows "int (ntohl_at (htonl_bytes v @ rest) 0) = v"
  using ntohl_htonl[OF assms] by (simp add: ntohl_at_def htonl_bytes_def)

lemma ntohs_at_htons:
  assumes "0 \<le> v" and "v < 65536"
  shows "ntohs_at (htons_bytes v @ rest) 0 = v"
  using ntohs_htons[OF assms] by (simp add: ntohs_at_def htons_bytes_def)

lemma ntohs_at_skip:
  assumes "0 \<le> k"
  shows "ntohs_at (xs @ ys) (int (length xs) + k) = ntohs_at ys k"
proof -
  have "nat (int (length xs) + k) = length xs + nat k"
    "nat (int (length xs) + k + 1) = length xs + nat (k + 1)"
    using assms by simp_all
  then show ?thesis by (simp add: ntohs_at_def nth_append)
qed

lemma addressed_fields:
  assumes "0 \<le> port" "port < 65536" "0 \<le> destuid" "destuid < 65536"
    and "int (length payload) < 4294967292"
  shows "int (ntohl_at (addressed port destuid payload) 0) = 4 + int (length payload)"
    and "ntohs_at (addressed port destuid payload) 4 = port"
    and "ntohs_at (addressed port destuid payload) 6 = destuid"
proof -
  show "int (ntohl_at (addressed port destuid payload) 0) = 4 + int (length payload)"
    unfolding addressed_def using assms(5) by (intro ntohl_at_htonl) simp_all
  have "ntohs_at (htonl_bytes (4 + int (length payload)) @ htons_bytes port @ htons_bytes destuid @ payload)
          (int (length (htonl_bytes (4 + int (length payload)))) + 0) = port"
    unfolding ntohs_at_skip[OF order_refl] using assms(1,2) by (rule ntohs_at_htons)
  then show "ntohs_at (addressed port destuid payload) 4 = port"
    by (simp add: addressed_def)
  have "ntohs_at ((htonl_bytes (4 + int (length payload)) @ htons_bytes port) @ htons_bytes destuid @ payload)
          (int (length (htonl_bytes (4 + int (length payload)) @ htons_bytes port)) + 0) = destuid"
    unfolding ntohs_at_skip[OF order_refl] using assms(3,4) by (rule ntohs_at_htons)
  then show "ntohs_at (addressed port destuid payload) 6 = destuid"
    by (simp add: addressed_def)
qed

lemma announce_fields:
  assumes "0 \<le> u" "u < 65536"
  shows "ntohl_at (announce u) 0 = 2"
    and "ntohs_at (announce u) 4 = u"
proof -
  have "int (ntohl_at (announce u) 0) = 2"
    unfolding announce_def by (intro ntohl_at_htonl) simp_all
  then show "ntohl_at (announce u) 0 = 2" by simp
  have "ntohs_at (htonl_bytes 2 @ htons_bytes u @ []) (int (length (htonl_bytes 2)) + 0) = u"
    unfolding ntohs_at_skip[OF order_refl] using assms by (rule ntohs_at_htons)
  then show "ntohs_at (announce u) 4 = u"
    by (simp add: announce_def)
qed

section \<open>What the cache operations leave alone\<close>

text \<open>\<open>strip\<close> forgets the caches as well: what is left is what no cache operation changes.\<close>

definition strip :: "state \<Rightarrow> state" where
  "strip s = (skel s)\<lparr>mem := (\<lambda>x. (mem (skel s) x)\<lparr>peers := []\<rparr>)\<rparr>"

lemma strip_skel: "skel s' = skel s \<Longrightarrow> strip s' = strip s"
  by (simp add: strip_def)

lemma strip_upd:
  assumes "\<And>c. (f c)\<lparr>refcount := 0, npeers := 0, peers := []\<rparr> = c\<lparr>refcount := 0, npeers := 0, peers := []\<rparr>"
  shows "strip (upd s p f) = strip s"
proof -
  have "\<And>x. (mem (upd s p f) x)\<lparr>refcount := 0, npeers := 0, peers := []\<rparr>
           = (mem s x)\<lparr>refcount := 0, npeers := 0, peers := []\<rparr>"
    using assms by (simp add: upd_def)
  then have "mem (strip (upd s p f)) = mem (strip s)"
    by (simp add: strip_def skel_def fun_eq_iff)
  then show ?thesis
    by (simp add: strip_def skel_def upd_def)
qed

lemma strip_prims:
  "strip (upd s p (\<lambda>c. c\<lparr>peers := ps\<rparr>)) = strip s"
  "strip (upd s p (\<lambda>c. c\<lparr>npeers := g (npeers c)\<rparr>)) = strip s"
  "strip (inc_refcount s p) = strip s"
  "strip (dec_refcount s p) = strip s"
  unfolding inc_refcount_def dec_refcount_def by (rule strip_upd, simp)+

lemma strip_unref: "strip (unref s q) = strip s"
  by (rule strip_skel[OF skel_unref])

lemma strip_add: "strip (proxy_peers_add s c p) = strip s"
proof (induction s c p rule: proxy_peers_add.induct)
  case (1 s c p)
  show ?case
  proof (cases "npeers (mem s c) < MAX_PEERS")
    case True
    obtain ps prev where sr:
      "shift_right (peers (mem s c)) (peers (mem s c) ! 0) 1 (npeers (mem s c)) = (ps, prev)"
      by (cases "shift_right (peers (mem s c)) (peers (mem s c) ! 0) 1 (npeers (mem s c))") auto
    show ?thesis
      using True sr
      using strip_prims(2)[of _ c Suc]
      by (subst proxy_peers_add.simps) (simp add: Let_def strip_prims)
  next
    case False
    define s1 where "s1 = unref s (peers (mem s c) ! (npeers (mem s c) - 1))"
    define s2 where "s2 = upd s1 c (\<lambda>x. x\<lparr>npeers := npeers x - 1\<rparr>)"
    have "strip (proxy_peers_add s2 c p) = strip s2"
      using 1[OF False s1_def s2_def] .
    moreover have "strip s2 = strip s"
      unfolding s2_def using strip_prims(2)[of s1 c "\<lambda>n. n - 1"] by (simp add: s1_def strip_unref)
    moreover have "proxy_peers_add s c p = proxy_peers_add s2 c p"
      using False by (subst proxy_peers_add.simps) (simp add: Let_def s1_def s2_def)
    ultimately show ?thesis by simp
  qed
qed

lemma strip_fields:
  assumes "strip s' = strip s"
  shows "faf_uid (mem s' x) = faf_uid (mem s x)"
    and "fd (mem s' x) = fd (mem s x)"
    and "buf (mem s' x) = buf (mem s x)"
    and "buf_len (mem s' x) = buf_len (mem s x)"
    and "is_server (mem s' x) = is_server (mem s x)"
    and "protocol (mem s' x) = protocol (mem s x)"
    and "peer_sockets s' = peer_sockets s"
    and "decay_mode s' = decay_mode s"
    and "writes s' = writes s"
    and "closed s' = closed s"
    and "total_sockets s' = total_sockets s"
    and "epoll s' = epoll s"
    and "server_sockets s' = server_sockets s"
    and "ctrl_out s' = ctrl_out s"
proof -
  have "mem (strip s') x = mem (strip s) x" using assms by simp
  then have m: "(mem s' x)\<lparr>refcount := 0, npeers := 0, peers := []\<rparr>
              = (mem s x)\<lparr>refcount := 0, npeers := 0, peers := []\<rparr>"
    by (simp add: strip_def skel_def)
  show "faf_uid (mem s' x) = faf_uid (mem s x)" using arg_cong[OF m, of faf_uid] by simp
  show "fd (mem s' x) = fd (mem s x)" using arg_cong[OF m, of fd] by simp
  show "buf (mem s' x) = buf (mem s x)" using arg_cong[OF m, of buf] by simp
  show "buf_len (mem s' x) = buf_len (mem s x)" using arg_cong[OF m, of buf_len] by simp
  show "is_server (mem s' x) = is_server (mem s x)" using arg_cong[OF m, of is_server] by simp
  show "protocol (mem s' x) = protocol (mem s x)" using arg_cong[OF m, of protocol] by simp
  show "peer_sockets s' = peer_sockets s"
    using arg_cong[OF assms, of peer_sockets] by (simp add: strip_def skel_def)
  show "decay_mode s' = decay_mode s"
    using arg_cong[OF assms, of decay_mode] by (simp add: strip_def skel_def)
  show "writes s' = writes s"
    using arg_cong[OF assms, of writes] by (simp add: strip_def skel_def)
  show "closed s' = closed s"
    using arg_cong[OF assms, of closed] by (simp add: strip_def skel_def)
  show "total_sockets s' = total_sockets s"
    using arg_cong[OF assms, of total_sockets] by (simp add: strip_def skel_def)
  show "epoll s' = epoll s"
    using arg_cong[OF assms, of epoll] by (simp add: strip_def skel_def)
  show "server_sockets s' = server_sockets s"
    using arg_cong[OF assms, of server_sockets] by (simp add: strip_def skel_def)
  show "ctrl_out s' = ctrl_out s"
    using arg_cong[OF assms, of ctrl_out] by (simp add: strip_def skel_def)
qed

lemma strip_resolve: "resolve s p u = (s1, r) \<Longrightarrow> strip s1 = strip s"
  by (auto simp: resolve_def strip_add split: option.splits)

section \<open>Steps of the frame parser\<close>

lemma parse_loop_done:
  "\<not> head < buf_len (mem s p) \<or> buf_len (mem s p) - head < 4 \<Longrightarrow>
   parse_loop s p head = Some (s, head, True)"
  by (subst parse_loop.simps) auto

lemma int32_small: "v < 2147483648 \<Longrightarrow> int32_of_uint32 v = int v"
  by (simp add: int32_of_uint32_def)

lemma parse_loop_incomplete:
  assumes "0 \<le> head" and "4 \<le> buf_len (mem s p) - head"
    and "int (ntohl_at (buf (mem s p)) head) \<le> FDCTX_CLIENT_BUFSIZE"
    and "buf_len (mem s p) - head < int (ntohl_at (buf (mem s p)) head) + 4"
  shows "parse_loop s p head = Some (s, head, True)"
proof -
  have "ntohl_at (buf (mem s p)) head < 2147483648"
    using assms(3) by (simp add: bufsize_val)
  then have i: "int32_of_uint32 (ntohl_at (buf (mem s p)) head) = int (ntohl_at (buf (mem s p)) head)"
    by (rule int32_small)
  show ?thesis
    using assms by (subst parse_loop.simps) (simp add: Let_def i)
qed


lemma parse_loop_skip_decay:
  assumes "0 \<le> head"
    and "int (ntohl_at (buf (mem s p)) head) = n"
    and "head + (n + 4) \<le> buf_len (mem s p)"
    and "buf_len (mem s p) \<le> FDCTX_CLIENT_BUFSIZE"
    and "faf_uid (mem s p) \<noteq> -1" and "decay_mode s"
  shows "parse_loop s p head = parse_loop s p (head + (n + 4))"
proof -
  have n0: "0 \<le> n" using assms(2) by auto
  have "ntohl_at (buf (mem s p)) head < 2147483648"
    using assms(1,2,3,4) by (simp add: bufsize_val)
  then have i: "int32_of_uint32 (ntohl_at (buf (mem s p)) head) = n"
    using assms(2) by (simp add: int32_small)
  show ?thesis
    using assms(1,3,4,5,6) n0 by (subst parse_loop.simps) (simp add: Let_def i)
qed

lemma parse_loop_addressed:
  assumes "0 \<le> head"
    and "int (ntohl_at (buf (mem s p)) head) = n" and "4 \<le> n"
    and "head + (n + 4) \<le> buf_len (mem s p)"
    and "buf_len (mem s p) \<le> FDCTX_CLIENT_BUFSIZE"
    and "faf_uid (mem s p) \<noteq> -1" and "\<not> decay_mode s"
  shows "parse_loop s p head =
         (case resolve s p (ntohs_at (buf (mem s p)) (head + 6)) of
            (s1, None) \<Rightarrow> parse_loop s1 p (head + (n + 4))
          | (s1, Some peer) \<Rightarrow> parse_loop (forward s1 p peer head n) p (head + (n + 4)))"
proof -
  have "ntohl_at (buf (mem s p)) head < 2147483648"
    using assms(1,2,4,5) by (simp add: bufsize_val)
  then have i: "int32_of_uint32 (ntohl_at (buf (mem s p)) head) = n"
    using assms(2) by (simp add: int32_small)
  show ?thesis
    using assms(1,3,4,5,6,7)
    by (subst parse_loop.simps)
       (simp add: Let_def i OUT_HEADER_OFFSET_ADJ_def split: prod.splits option.splits)
qed

section \<open>The header rewrite\<close>





lemma header_rewrite_step:
  assumes frame: "buf_read (buf (mem s p)) head (8 + int (length payload)) = addressed port destuid payload"
    and head: "0 \<le> head"
    and fits: "head + (8 + int (length payload)) \<le> buf_len (mem s p)"
    and cap: "buf_len (mem s p) \<le> FDCTX_CLIENT_BUFSIZE"
    and port: "0 \<le> port" "port < 65536"
    and dest: "0 \<le> destuid" "destuid < 65536"
    and uid: "faf_uid (mem s p) \<noteq> -1"
    and nodecay: "\<not> decay_mode s"
  shows "parse_loop s p head =
         (case resolve s p destuid of
            (s1, None) \<Rightarrow> parse_loop s1 p (head + (8 + int (length payload)))
          | (s1, Some peer) \<Rightarrow>
              parse_loop (forward s1 p peer head (4 + int (length payload))) p
                         (head + (8 + int (length payload))))"
proof -
  have small: "int (length payload) < 4294967292"
    using head fits cap by (simp add: bufsize_val)
  have f: "int (ntohl_at (addressed port destuid payload) 0) = 4 + int (length payload)"
    "ntohs_at (addressed port destuid payload) 6 = destuid"
    using addressed_fields[OF port dest small] by simp_all
  have sz: "int (ntohl_at (buf (mem s p)) head) = 4 + int (length payload)"
    using ntohl_at_sub[OF frame head, of 0] f(1) by simp
  have du: "ntohs_at (buf (mem s p)) (head + 6) = destuid"
    using ntohs_at_sub[OF frame head, of 6] f(2) by simp
  have e: "4 + int (length payload) + 4 = 8 + int (length payload)" by simp
  have A: "parse_loop s p head =
         (case resolve s p (ntohs_at (buf (mem s p)) (head + 6)) of
            (s1, None) \<Rightarrow> parse_loop s1 p (head + (4 + int (length payload) + 4))
          | (s1, Some peer) \<Rightarrow>
              parse_loop (forward s1 p peer head (4 + int (length payload))) p
                         (head + (4 + int (length payload) + 4)))"
    using fits by (intro parse_loop_addressed[OF head sz _ _ cap uid nodecay]) simp_all
  show ?thesis
    unfolding A du e ..
qed

lemma buf_read_buf_write:
  assumes "0 \<le> i" and "nat i \<le> length b"
  shows "buf_read (buf_write b i bs) i (int (length bs)) = bs"
  using assms by (simp add: buf_read_def buf_write_def)

section \<open>Lookups and entries with an unset UID\<close>

lemma peer_sockets_find_hit: "peer_sockets_find s u = Some q \<Longrightarrow> faf_uid (mem s q) = u"
  using set_find_mem[of "uid_of s" u "peer_sockets s" q]
  by (simp add: peer_sockets_find_def uid_of_def)

lemma resolve_result:
  "resolve s c u = (s', Some q) \<Longrightarrow> faf_uid (mem s q) = u"
  by (auto simp: resolve_def split: option.splits dest: proxy_peers_find_hit peer_sockets_find_hit)

lemma tombstone_lookup:
  assumes wf: "wf_cache s c"
    and inc: "P \<in> set (cache s c)"
    and tomb: "faf_uid (mem s P) = -1"
    and u: "0 \<le> u"
    and res: "resolve s c u = (s', r)"
  shows "r \<noteq> Some P"
    and "faf_uid (mem s' P) = -1"
    and "npeers (mem s c) < MAX_PEERS \<Longrightarrow> P \<in> set (cache s' c)"
    and "npeers (mem s c) = MAX_PEERS \<Longrightarrow> P \<in> set (butlast (cache s c)) \<Longrightarrow>
         c \<in> set (allocated s') \<Longrightarrow> P \<in> set (cache s' c)"
proof -
  show "r \<noteq> Some P"
    using resolve_result[of s c u s' P] res tomb u by auto
  show "faf_uid (mem s' P) = -1"
    using strip_fields(1)[OF strip_resolve[OF res], of P] tomb by simp
  show "P \<in> set (cache s' c)" if "npeers (mem s c) < MAX_PEERS"
  proof (cases "proxy_peers_find s c u")
    case (Some q)
    then show ?thesis using res inc by (simp add: resolve_def)
  next
    case None
    show ?thesis
    proof (cases "peer_sockets_find s u")
      case n: None
      then show ?thesis using None res inc by (simp add: resolve_def)
    next
      case (Some q)
      then have "s' = proxy_peers_add s c q" using None res by (simp add: resolve_def)
      then show ?thesis using add_not_full(1)[OF wf that, of q] inc by simp
    qed
  qed
  show "P \<in> set (cache s' c)"
    if "npeers (mem s c) = MAX_PEERS" "P \<in> set (butlast (cache s c))" "c \<in> set (allocated s')"
  proof (cases "proxy_peers_find s c u")
    case (Some q)
    then show ?thesis using res inc by (simp add: resolve_def)
  next
    case None
    show ?thesis
    proof (cases "peer_sockets_find s u")
      case n: None
      then show ?thesis using None res inc by (simp add: resolve_def)
    next
      case (Some q)
      then have e: "s' = proxy_peers_add s c q" using None res by (simp add: resolve_def)
      have "c \<in> set (allocated (unref s (last (cache s c))))"
        using that(3) add_full(4)[OF wf that(1), of q] e by simp
      then have "cache s' c = q # butlast (cache s c)"
        using add_full(5)[OF wf that(1), of q] e by simp
      then show ?thesis using that(2) by simp
    qed
  qed
qed

lemma cache_buf_only:
  "cache (upd s p (\<lambda>c. c\<lparr>buf := b\<rparr>)) x = cache s x"
  "cache (upd s p (\<lambda>c. c\<lparr>buf_len := n\<rparr>)) x = cache s x"
  "cache (append_read s p bs) x = cache s x"
  by (simp_all add: cache_def upd_def append_read_def)

lemma cache_compact: "cache (compact s p head) x = cache s x"
  by (simp add: compact_def Let_def cache_def upd_def)

text \<open>One addressed frame, read into an empty buffer, whose destination is unknown.\<close>

lemma peer_event_unroutable:
  assumes empty: "buf_len (mem s p) = 0"
    and len: "int (length (buf (mem s p))) = FDCTX_CLIENT_BUFSIZE"
    and fits: "8 + int (length payload) \<le> FDCTX_CLIENT_BUFSIZE"
    and port: "0 \<le> port" "port < 65536"
    and dest: "0 \<le> destuid" "destuid < 65536"
    and uid: "faf_uid (mem s p) \<noteq> -1"
    and nodecay: "\<not> decay_mode s"
    and rd: "e_read e = ReadData (addressed port destuid payload)"
    and unknown: "resolve (append_read s p (addressed port destuid payload)) p destuid
                  = (append_read s p (addressed port destuid payload), None)"
  shows "peer_event s p e =
         Some (compact (append_read s p (addressed port destuid payload)) p (8 + int (length payload)))"
proof -
  define fr where "fr = addressed port destuid payload"
  define s1 where "s1 = append_read s p fr"
  have lf: "int (length fr) = 8 + int (length payload)" by (simp add: fr_def)
  have m1: "buf (mem s1 p) = buf_write (buf (mem s p)) 0 fr" "buf_len (mem s1 p) = 8 + int (length payload)"
    "faf_uid (mem s1 p) \<noteq> -1" "\<not> decay_mode s1"
    using empty uid nodecay lf by (simp_all add: s1_def append_read_def upd_def)
  have fr1: "buf_read (buf (mem s1 p)) 0 (8 + int (length payload)) = addressed port destuid payload"
    unfolding m1(1) using buf_read_buf_write[of 0 "buf (mem s p)" fr] lf by (simp add: fr_def)
  have d: "parse_loop s1 p (0 + (8 + int (length payload))) = Some (s1, 8 + int (length payload), True)"
    using parse_loop_done[of "8 + int (length payload)" s1 p] m1(2) by simp
  have step: "parse_loop s1 p 0 = Some (s1, 8 + int (length payload), True)"
    using header_rewrite_step[OF fr1 order_refl _ _ port dest m1(3,4)] m1(2) fits unknown d
    by (simp add: s1_def fr_def)
  have ne: "addressed port destuid payload \<noteq> []"
    by (simp add: addressed_def htonl_bytes_def)
  have nd: "\<not> decay_mode (compact s1 p (8 + int (length payload)))"
    using m1(4) by (simp add: compact_def Let_def upd_def)
  show ?thesis
    using nodecay rd ne step nd
    by (simp add: peer_event_def s1_def[unfolded fr_def, symmetric])
qed

subsection \<open>What closing a connection records\<close>

lemma strip_remove: "strip (proxy_peers_remove s c p) = strip s"
proof (cases "find_slot (peers (mem s c)) (npeers (mem s c)) p 0")
  case None
  then show ?thesis by (simp add: proxy_peers_remove_def)
next
  case (Some i)
  have a: "strip (upd s c (\<lambda>x. x\<lparr>peers := shift_left (peers x) (i + 1) (npeers x)\<rparr>)) = strip s"
    by (rule strip_upd) simp
  show ?thesis
    using Some a strip_prims(2)[of _ c "\<lambda>n. n - 1"]
    by (simp add: proxy_peers_remove_def Let_def strip_unref)
qed

lemma strip_remove_from_all_peers:
  "strip (proxy_peers_remove_from_all_peers s c p i) = strip s"
proof (induction s c p i rule: proxy_peers_remove_from_all_peers.induct)
  case (1 s c p i)
  show ?case
  proof (cases "i < npeers (mem s c)")
    case True
    then have "proxy_peers_remove_from_all_peers s c p i =
               proxy_peers_remove_from_all_peers (proxy_peers_remove s (peers (mem s c) ! i) p) c p (i + 1)"
      by (subst proxy_peers_remove_from_all_peers.simps) simp
    then show ?thesis using 1[OF True] by (simp add: strip_remove)
  next
    case False
    then show ?thesis by (subst proxy_peers_remove_from_all_peers.simps) simp
  qed
qed

lemma strip_deallocate: "strip (deallocate_fdctx s p) = strip s"
  by (rule strip_skel[OF skel_deallocate])

lemma strip_fault: "strip (s\<lparr>fault := b\<rparr>) = strip s"
  by (simp add: strip_def skel_def)

text \<open>What closing a connection does outside the caches.\<close>

lemma drop_connection_trace:
  "closed (drop_connection s p) = closed s @ [fd (mem s p)]"
  "total_sockets (drop_connection s p) = total_sockets s - 1"
  "writes (drop_connection s p) = writes s"
  "decay_mode (drop_connection s p) = decay_mode s"
  "server_sockets (drop_connection s p) = server_sockets s"
  "epoll (drop_connection s p) = filter (\<lambda>e. fst e \<noteq> fd (mem s p)) (epoll s)"
proof -
  define s2 where "s2 = (close_fd s (fd (mem s p)))\<lparr>total_sockets := total_sockets (close_fd s (fd (mem s p))) - 1\<rparr>"
  define s3 where "s3 = (if faf_uid (mem s2 p) \<noteq> -1 then peer_sockets_erase s2 p else s2)"
  define s4 where "s4 = remove_myself_from_peer_caches s3 p"
  define s5 where "s5 = dec_refcount s4 p"
  have e: "drop_connection s p =
     (if refcount (mem s5 p) = 0 then
        (if p \<in> set (allocated s5) then deallocate_fdctx s5 p else s5\<lparr>fault := True\<rparr>)
      else upd s5 p (\<lambda>c. c\<lparr>faf_uid := -1\<rparr>))"
    by (simp add: drop_connection_def Let_def s5_def s4_def s3_def s2_def)
  have t3: "closed s3 = closed s @ [fd (mem s p)]" "total_sockets s3 = total_sockets s - 1"
    "writes s3 = writes s" "decay_mode s3 = decay_mode s" "server_sockets s3 = server_sockets s"
    "epoll s3 = filter (\<lambda>e. fst e \<noteq> fd (mem s p)) (epoll s)"
    by (simp_all add: s3_def s2_def close_fd_def epoll_del_def peer_sockets_erase_def)
  have st5: "strip s5 = strip s3"
    by (simp add: s5_def s4_def remove_myself_from_peer_caches_def strip_prims
        strip_remove_from_all_peers)
  have t5: "closed s5 = closed s3" "total_sockets s5 = total_sockets s3" "writes s5 = writes s3"
    "decay_mode s5 = decay_mode s3" "server_sockets s5 = server_sockets s3" "epoll s5 = epoll s3"
    using strip_fields(10,11,9,8,13,12)[OF st5] by simp_all
  have fin: "closed (drop_connection s p) = closed s5 \<and> total_sockets (drop_connection s p) = total_sockets s5
      \<and> writes (drop_connection s p) = writes s5 \<and> decay_mode (drop_connection s p) = decay_mode s5
      \<and> server_sockets (drop_connection s p) = server_sockets s5 \<and> epoll (drop_connection s p) = epoll s5"
  proof (cases "refcount (mem s5 p) = 0")
    case True
    show ?thesis
    proof (cases "p \<in> set (allocated s5)")
      case a: True
      have "strip (drop_connection s p) = strip s5"
        using True a e by (simp add: strip_deallocate)
      from strip_fields(10,11,9,8,13,12)[OF this] show ?thesis by simp
    next
      case a: False
      then show ?thesis using True e by simp
    qed
  next
    case False
    then show ?thesis using e by (simp add: upd_def)
  qed
  show "closed (drop_connection s p) = closed s @ [fd (mem s p)]" using fin t5 t3 by simp
  show "total_sockets (drop_connection s p) = total_sockets s - 1" using fin t5 t3 by simp
  show "writes (drop_connection s p) = writes s" using fin t5 t3 by simp
  show "decay_mode (drop_connection s p) = decay_mode s" using fin t5 t3 by simp
  show "server_sockets (drop_connection s p) = server_sockets s" using fin t5 t3 by simp
  show "epoll (drop_connection s p) = filter (\<lambda>e. fst e \<noteq> fd (mem s p)) (epoll s)"
    using fin t5 t3 by simp
qed

subsection \<open>An event from the middle of the buffer\<close>



lemma uid_of_index [simp]: "uid_of (s\<lparr>peer_sockets := x\<rparr>) = uid_of s"
  by (rule ext) (simp add: uid_of_def)




section \<open>Concrete states\<close>

text \<open>
  \<open>ctx0\<close> is a context as the accept path leaves it: the constructor sets \<open>refcount\<close> to 1
  and \<open>npeers\<close> to 0, \<open>main\<close> sets \<open>faf_uid = -1\<close>, \<open>buf_len = 0\<close> and
  \<open>protocol = IPPROTO_TCP\<close> (6). The slots of \<open>peers\<close> are not initialised in C; they
  hold 0 here. \<open>st0\<close> is the state of \<open>main\<close> before the loop, with no listener.
\<close>

definition ctx0 :: fd_ctx where
  "ctx0 = \<lparr>faf_uid = -1, fd = -1, is_server = False, npeers = 0, peers = replicate 16 0,
           buf_len = 0, refcount = 1, protocol = 6, buf = []\<rparr>"

definition st0 :: state where
  "st0 = \<lparr>mem = (\<lambda>_. ctx0), allocated = [], fault = False, peer_sockets = [],
          server_sockets = [], ctrl_socket_fd = -1, ctrl_socket_conn_fd = -1,
          ctrl_socket_mode_listen = False, decay_mode = False, sockets_inherited = 0,
          total_sockets = 0, got_sigusr1 = False, epoll = [], writes = [], closed = [],
          ctrl_out = [], exit_status = None\<rparr>"

text \<open>
  Context 1 has a full cache, newest first 2, 3, ..., 17; the oldest entry 17 is referenced
  by this cache only; 18 is the peer to be added.
\<close>

definition st_full :: state where
  "st_full = st0\<lparr>mem := (\<lambda>_. ctx0)
                 (1 := ctx0\<lparr>npeers := 16, peers := [2, 3, 4, 5, 6, 7, 8, 9, 10, 11, 12, 13, 14, 15, 16, 17]\<rparr>),
               allocated := [1, 2, 3, 4, 5, 6, 7, 8, 9, 10, 11, 12, 13, 14, 15, 16, 17, 18]\<rparr>"

text \<open>
  \<open>env0\<close>: an environment in which nothing arrives and every call succeeds; \<open>malloc\<close>
  hands out the addresses 100, 101, ...
\<close>

definition env0 :: env where
  "env0 = \<lparr>e_read = ReadErr EAGAIN, e_sendmsg = (\<lambda>_. True), e_accept = -1,
           e_epoll_add = (\<lambda>_. True), e_epoll_del = True, e_write_ok = True,
           e_new = (\<lambda>k. 100 + k), e_recvmsg = RecvErr, e_socket = -1\<rparr>"

text \<open>
  Two peers as \<open>new_peer\<close> makes them. In \<open>st_fresh\<close> peer 1 (descriptor 5) has announced
  UID 42 and peer 2 (descriptor 6) has announced nothing yet. In \<open>st_pair\<close> peer 2 has
  announced UID 7; the index is ordered by UID. In \<open>st_cached\<close> peer 2 has sent a message
  to UID 42 before: its cache holds peer 1, which therefore has two references.
\<close>

definition st_fresh :: state where
  "st_fresh = (new_peer (new_peer st0 1 5 42) 2 6 (-1))
                \<lparr>peer_sockets := [1], total_sockets := 2, epoll := [(5, Ctx 1), (6, Ctx 2)]\<rparr>"

definition st_pair :: state where
  "st_pair = (new_peer (new_peer st0 1 5 42) 2 6 7)
               \<lparr>peer_sockets := [2, 1], total_sockets := 2, epoll := [(5, Ctx 1), (6, Ctx 2)]\<rparr>"

definition st_cached :: state where
  "st_cached = inc_refcount (upd st_pair 2 (\<lambda>c. c\<lparr>npeers := 1, peers := 1 # replicate 15 0\<rparr>)) 1"

text \<open>What the UID index maps \<open>u\<close> to after the event.\<close>

definition index_after_event :: "state \<Rightarrow> ptr \<Rightarrow> env \<Rightarrow> int \<Rightarrow> ptr option option" where
  "index_after_event s p e u = map_option (\<lambda>s'. peer_sockets_find s' u) (peer_event s p e)"

lemma st_fresh_facts:
  "faf_uid (mem st_fresh 2) = -1"
  "2 \<notin> set (peer_sockets st_fresh)"
  "peer_sockets_find st_fresh 42 = Some 1"
  "\<not> decay_mode st_fresh"
  "buf_len (mem st_fresh 2) = 0"
  "int (length (buf (mem st_fresh 2))) = FDCTX_CLIENT_BUFSIZE"
  "peer_sockets st_fresh = [1]"
  by (simp_all add: st_fresh_def new_peer_def st0_def peer_sockets_find_def uid_of_def bufsize_val)



text \<open>
  The message of the first scenario of the specification: port \<open>0x1234\<close>, destination UID
  42, payload \<open>DE AD BE EF\<close>. In \<open>st_msg\<close> peer 2 of \<open>st_pair\<close> has just read it.
\<close>

definition frame_1 :: "byte list" where
  "frame_1 = addressed 0x1234 42 [0xDE, 0xAD, 0xBE, 0xEF]"



text \<open>
  \<open>st_tomb\<close>: peer 1 of \<open>st_cached\<close> has closed its connection. Peer 2 still has it in
  its cache, so the context stays, with its UID unset.
\<close>

definition st_tomb :: state where
  "st_tomb = drop_connection st_cached 1"

text \<open>The cache of \<open>c\<close> after the event.\<close>

definition cache_after_event :: "state \<Rightarrow> ptr \<Rightarrow> env \<Rightarrow> ptr \<Rightarrow> ptr list option" where
  "cache_after_event s p e c = map_option (\<lambda>s'. cache s' c) (peer_event s p e)"

lemmas st_tomb_unfold = st_tomb_def drop_connection_def Let_def st_cached_def st_pair_def new_peer_def
  st0_def close_fd_def epoll_del_def peer_sockets_erase_def uid_of_def
  remove_myself_from_peer_caches_def proxy_peers_remove_from_all_peers.simps
  dec_refcount_def inc_refcount_def upd_def

lemma st_tomb_facts:
  "wf_cache st_tomb 2"
  "cache st_tomb 2 = [1]"
  "faf_uid (mem st_tomb 1) = -1"
  "buf_len (mem st_tomb 2) = 0"
  "int (length (buf (mem st_tomb 2))) = FDCTX_CLIENT_BUFSIZE"
  "faf_uid (mem st_tomb 2) \<noteq> -1"
  "\<not> decay_mode st_tomb"
  "npeers (mem st_tomb 2) < MAX_PEERS"
  "closed st_tomb = [5]"
  "peer_sockets st_tomb = [2]"
  by (simp_all add: st_tomb_unfold wf_cache_def cache_def MAX_PEERS_def bufsize_val)

lemma st_tomb_resolve:
  "resolve (append_read st_tomb 2 frame_1) 2 42 = (append_read st_tomb 2 frame_1, None)"
  by (simp add: resolve_def proxy_peers_find_def find_loop.simps peer_sockets_find_def
      append_read_def st_tomb_unfold)

text \<open>The descriptors closed once the event has been handled, in order.\<close>

definition closed_after_event :: "state \<Rightarrow> ptr \<Rightarrow> env \<Rightarrow> int list option" where
  "closed_after_event s p e = map_option closed (peer_event s p e)"

text \<open>An environment whose \<open>read\<close> delivers the given bytes.\<close>

definition reads :: "byte list \<Rightarrow> env" where
  "reads bs = env0\<lparr>e_read := ReadData bs\<rparr>"

lemma st_fresh_read:
  assumes "length bs = 4"
  shows "buf_len (mem (append_read st_fresh 2 bs) 2) = 4"
    and "buf (mem (append_read st_fresh 2 bs) 2) = bs @ replicate (nat FDCTX_CLIENT_BUFSIZE - 4) 0"
    and "faf_uid (mem (append_read st_fresh 2 bs) 2) = -1"
    and "\<not> decay_mode (append_read st_fresh 2 bs)"
    and "closed (append_read st_fresh 2 bs) = []"
    and "fd (mem (append_read st_fresh 2 bs) 2) = 6"
  using assms
  by (simp_all add: append_read_def upd_def st_fresh_def new_peer_def st0_def buf_write_def)

lemma ntohl_at_4: "ntohl_at (b0 # b1 # b2 # b3 # rest) 0
    = unat b0 * 16777216 + unat b1 * 65536 + unat b2 * 256 + unat b3"
  by (simp add: ntohl_at_def)

lemma oversize_max:
  "closed_after_event st_fresh 2 (reads [0x7F, 0xFF, 0xFF, 0xFF]) = Some [6]"
proof -
  define s1 where "s1 = append_read st_fresh 2 [0x7F, 0xFF, 0xFF, 0xFF]"
  note f = st_fresh_read[of "[0x7F, 0xFF, 0xFF, 0xFF]", simplified, folded s1_def]
  have n: "ntohl_at (buf (mem s1 2)) 0 = 2147483647"
    by (simp add: f(2) ntohl_at_4)
  have pl: "parse_loop s1 2 0 = Some (drop_connection (epoll_del s1 (fd (mem s1 2))) 2, 0, False)"
    by (subst parse_loop.simps) (simp add: f(1) f(3-6) n int32_of_uint32_def bufsize_val)
  have c: "closed (drop_connection (epoll_del s1 (fd (mem s1 2))) 2) = [6]"
    unfolding drop_connection_trace using f by (simp add: epoll_del_def)
  have d: "decay_mode (drop_connection (epoll_del s1 (fd (mem s1 2))) 2) = False"
    unfolding drop_connection_trace using f by (simp add: epoll_del_def)
  show ?thesis
    using c d
    by (simp add: closed_after_event_def peer_event_def reads_def env0_def st_fresh_facts
        s1_def[symmetric] pl)
qed

lemma oversize_by_four:
  "closed_after_event st_fresh 2 (reads (htonl_bytes FDCTX_CLIENT_BUFSIZE)) = Some []"
proof -
  have h: "htonl_bytes FDCTX_CLIENT_BUFSIZE = [0, 0, 0x0F, 0x58]"
    by (simp add: htonl_bytes_def bufsize_val)
  define s1 where "s1 = append_read st_fresh 2 [0, 0, 0x0F, 0x58]"
  note f = st_fresh_read[of "[0, 0, 0x0F, 0x58]", simplified, folded s1_def]
  have n: "ntohl_at (buf (mem s1 2)) 0 = 3928"
    by (simp add: f(2) ntohl_at_4)
  have pl: "parse_loop s1 2 0 = Some (s1, 0, True)"
    by (rule parse_loop_incomplete) (simp_all add: f(1) f(3-6) n int32_of_uint32_def bufsize_val)
  have c: "closed (compact s1 2 0) = []" "\<not> decay_mode (compact s1 2 0)"
    using f by (simp_all add: compact_def Let_def upd_def)
  show ?thesis
    unfolding h using c
    by (simp add: closed_after_event_def peer_event_def reads_def env0_def st_fresh_facts
        s1_def[symmetric] pl)
qed

lemma oversize_negative:
  "closed_after_event st_fresh 2 (reads [0xFF, 0xFF, 0xFF, 0xFF]) = Some []"
proof -
  define s1 where "s1 = append_read st_fresh 2 [0xFF, 0xFF, 0xFF, 0xFF]"
  note f = st_fresh_read[of "[0xFF, 0xFF, 0xFF, 0xFF]", simplified, folded s1_def]
  have n: "ntohl_at (buf (mem s1 2)) 0 = 4294967295"
    by (simp add: f(2) ntohl_at_4)
  define s2 where "s2 = peer_sockets_insert (upd s1 2 (\<lambda>c. c\<lparr>faf_uid := ntohs_at (buf c) 4\<rparr>)) 2"
  have f2: "buf_len (mem s2 2) = 4" "closed s2 = []" "\<not> decay_mode s2"
    using f by (simp_all add: s2_def peer_sockets_insert_def upd_def)
  have pl2: "parse_loop s2 2 3 = Some (s2, 3, True)"
    by (rule parse_loop_done) (simp add: f2)
  have pl: "parse_loop s1 2 0 = Some (s2, 3, True)"
    by (subst parse_loop.simps)
       (simp add: f(1) f(3-6) n int32_of_uint32_def bufsize_val Let_def s2_def[symmetric] pl2)
  have c: "closed (compact s2 2 3) = []" "\<not> decay_mode (compact s2 2 3)"
    using f2 by (simp_all add: compact_def Let_def upd_def)
  show ?thesis
    using c
    by (simp add: closed_after_event_def peer_event_def reads_def env0_def st_fresh_facts
        s1_def[symmetric] pl)
qed









text \<open>
  A start with \<open>-u path\<close>: no socket file at the path, so that \<open>connect\<close> fails with
  \<open>ENOENT\<close>; one IPv4 address to listen on; every other call succeeds.
\<close>

definition addr4 :: addrinfo where
  "addr4 = \<lparr>ai_family = AF_INET, ai_protocol = IPPROTO_TCP, ai_socket = 4,
            ai_v6only_ok = True, ai_reuseaddr_ok = True, ai_bind_ok = True,
            ai_listen_ok = True, ai_new = 1, ai_name = [], ai_epoll_add = True\<rparr>"

definition boot0 :: boot_env where
  "boot0 = \<lparr>b_epoll_create = 3, b_socket = 5, b_connect = Some ENOENT, b_unlink_ok = True,
            b_bind_ok = True, b_reuseaddr_ok = True, b_listen_ok = True, b_epoll_add = True,
            b_send = 8, b_recv_buf = ''unlistening'', b_getaddrinfo = 0, b_addrs = [addr4]\<rparr>"

definition exit_after_startup :: "boot_env \<Rightarrow> int option" where
  "exit_after_startup b = exit_status (snd (startup True (\<lambda>_. ctx0) b))"

definition log_after_startup :: "boot_env \<Rightarrow> string list" where
  "log_after_startup b = fst (startup True (\<lambda>_. ctx0) b)"

lemmas startup_unfold = exit_after_startup_def log_after_startup_def startup_def ctrl_setup_def
  ctrl_socket_listen_def poll_in_log_def poll_in_def epoll_add_def exit_1_def initial_def
  boot0_def addr4_def ECONNREFUSED_def ENOENT_def upd_def Let_def

section \<open>Claims\<close>

text \<open>
  C1 (as amended). A connection \<open>p\<close> with no UID yet receives, outside decay mode and
  with an empty buffer, the announce frame for a UID \<open>u\<close> that the index already maps to
  the connection \<open>a\<close>. Then \<open>p\<close> gets the UID \<open>u\<close>, but the index is unchanged and still
  maps \<open>u\<close> to \<open>a\<close>: \<open>std::set::insert\<close> does not replace an element with an
  equivalent key. \<open>a\<close> is untouched and nothing is closed; it is \<open>p\<close> that cannot be
  addressed by \<open>u\<close>.
\<close>

theorem duplicate_announce_keeps_holder:
  assumes "faf_uid (mem s p) = -1"
    and "p \<notin> set (peer_sockets s)"
    and "peer_sockets_find s u = Some a"
    and "\<not> decay_mode s"
    and "buf_len (mem s p) = 0"
    and "int (length (buf (mem s p))) = FDCTX_CLIENT_BUFSIZE"
    and "0 \<le> u" and "u < 65536"
    and "e_read e = ReadData (announce u)"
  shows "\<exists>s'. peer_event s p e = Some s' \<and> faf_uid (mem s' p) = u \<and>
              peer_sockets s' = peer_sockets s \<and> peer_sockets_find s' u = Some a \<and>
              a \<noteq> p \<and> mem s' a = mem s a \<and> closed s' = closed s \<and>
              total_sockets s' = total_sockets s"
  using assms by (rule announce_duplicate)

theorem duplicate_announce_keeps_holder_witness:
  "\<exists>s'. peer_event st_fresh 2 (env0\<lparr>e_read := ReadData (announce 42)\<rparr>) = Some s' \<and>
        faf_uid (mem s' 2) = 42 \<and> peer_sockets s' = [1] \<and> peer_sockets_find s' 42 = Some 1"
  using duplicate_announce_keeps_holder[of st_fresh 2 42 1 "env0\<lparr>e_read := ReadData (announce 42)\<rparr>"]
    st_fresh_facts
  by auto

text \<open>
  C1 as stated fails: peer 1 holds UID 42, peer 2 announces 42, and afterwards the index
  maps 42 to peer 1, not to peer 2.
\<close>

theorem duplicate_announce_not_replaced:
  "index_after_event st_fresh 2 (env0\<lparr>e_read := ReadData (announce 42)\<rparr>) 42 = Some (Some 1) \<and>
   index_after_event st_fresh 2 (env0\<lparr>e_read := ReadData (announce 42)\<rparr>) 42 \<noteq> Some (Some 2)"
  using announce_duplicate[of st_fresh 2 42 1 "env0\<lparr>e_read := ReadData (announce 42)\<rparr>"]
    st_fresh_facts
  by (auto simp: index_after_event_def)

text \<open>
  C2. The size test of the parser is \<open>in_msg_size > FDCTX_CLIENT_BUFSIZE\<close> on a signed
  32-bit size. A fresh connection (descriptor 6) whose first four bytes give the size
  \<open>0x7FFFFFFF\<close> is closed. One whose size field is \<open>FDCTX_CLIENT_BUFSIZE\<close>, so that size
  plus the four bytes of the field is larger than the buffer, is not closed, and neither
  is one whose size field is \<open>0xFFFFFFFF\<close>.
\<close>

theorem oversize_check_misses:
  "closed_after_event st_fresh 2 (reads [0x7F, 0xFF, 0xFF, 0xFF]) = Some [6] \<and>
   FDCTX_CLIENT_BUFSIZE < FDCTX_CLIENT_BUFSIZE + 4 \<and>
   closed_after_event st_fresh 2 (reads (htonl_bytes FDCTX_CLIENT_BUFSIZE)) = Some [] \<and>
   closed_after_event st_fresh 2 (reads [0xFF, 0xFF, 0xFF, 0xFF]) = Some []"
  using oversize_max oversize_by_four oversize_negative by simp



text \<open>
  C5. A peer cache never holds more than 16 entries. \<open>add(peer)\<close> on a cache in its
  proper shape (16 slots, at most 16 in use) leaves it in that shape. With a free slot,
  \<open>peer\<close> goes to position 0 and the older entries move back by one; the count of
  \<open>peer\<close> goes up by one and nothing else changes a count or is destroyed. With 16
  entries the code first drops its reference to the last (oldest) entry \<open>t\<close>, which is
  \<open>unref\<close>: the count of \<open>t\<close> goes down by one, and \<open>t\<close> is destroyed when that makes it 0;
  then \<open>peer\<close> goes to position 0 in front of the 15 newer entries and its count goes up
  by one. (The list statement for the full cache is for an owner that the destruction of
  \<open>t\<close> did not destroy in turn.)
\<close>

theorem proxy_peers_add_bounded_mru:
  assumes "wf_cache s c"
  shows "wf_cache (proxy_peers_add s c p) c \<and>
         length (cache (proxy_peers_add s c p) c) \<le> MAX_PEERS \<and>
         (npeers (mem s c) < MAX_PEERS \<longrightarrow>
            cache (proxy_peers_add s c p) c = p # cache s c \<and>
            refcount (mem (proxy_peers_add s c p) p) = refcount (mem s p) + 1 \<and>
            (\<forall>x. x \<noteq> p \<longrightarrow> refcount (mem (proxy_peers_add s c p) x) = refcount (mem s x)) \<and>
            allocated (proxy_peers_add s c p) = allocated s) \<and>
         (npeers (mem s c) = MAX_PEERS \<longrightarrow>
            (let t = last (cache s c); e = unref s t in
               (refcount (mem s t) \<noteq> 1 \<longrightarrow> e = dec_refcount s t) \<and>
               (refcount (mem s t) = 1 \<and> t \<in> set (allocated s) \<longrightarrow> t \<notin> set (allocated e)) \<and>
               (c \<in> set (allocated e) \<longrightarrow>
                  cache (proxy_peers_add s c p) c = p # butlast (cache s c)) \<and>
               refcount (mem (proxy_peers_add s c p) p) = refcount (mem e p) + 1 \<and>
               (\<forall>x. x \<noteq> p \<longrightarrow> refcount (mem (proxy_peers_add s c p) x) = refcount (mem e x)) \<and>
               allocated (proxy_peers_add s c p) = allocated e))"
proof -
  have wf: "wf_cache (proxy_peers_add s c p) c"
  proof (cases "npeers (mem s c) < MAX_PEERS")
    case True
    then show ?thesis by (rule add_not_full(2)[OF assms])
  next
    case False
    then have "npeers (mem s c) = MAX_PEERS"
      using assms by (simp add: wf_cache_def)
    then show ?thesis by (rule add_full(1)[OF assms])
  qed
  moreover have "length (cache (proxy_peers_add s c p) c) \<le> MAX_PEERS"
    using wf by (simp add: cache_def wf_cache_def)
  moreover have "npeers (mem s c) < MAX_PEERS \<longrightarrow>
            cache (proxy_peers_add s c p) c = p # cache s c \<and>
            refcount (mem (proxy_peers_add s c p) p) = refcount (mem s p) + 1 \<and>
            (\<forall>x. x \<noteq> p \<longrightarrow> refcount (mem (proxy_peers_add s c p) x) = refcount (mem s x)) \<and>
            allocated (proxy_peers_add s c p) = allocated s"
    using add_not_full(1,3,4,5)[OF assms] by blast
  moreover have "npeers (mem s c) = MAX_PEERS \<longrightarrow>
            (let t = last (cache s c); e = unref s t in
               (refcount (mem s t) \<noteq> 1 \<longrightarrow> e = dec_refcount s t) \<and>
               (refcount (mem s t) = 1 \<and> t \<in> set (allocated s) \<longrightarrow> t \<notin> set (allocated e)) \<and>
               (c \<in> set (allocated e) \<longrightarrow>
                  cache (proxy_peers_add s c p) c = p # butlast (cache s c)) \<and>
               refcount (mem (proxy_peers_add s c p) p) = refcount (mem e p) + 1 \<and>
               (\<forall>x. x \<noteq> p \<longrightarrow> refcount (mem (proxy_peers_add s c p) x) = refcount (mem e x)) \<and>
               allocated (proxy_peers_add s c p) = allocated e)"
    unfolding Let_def
    using add_full(2,3,4,5)[OF assms] unref_keeps unref_destroys by blast
  ultimately show ?thesis by blast
qed

lemma st_full_facts:
  "wf_cache st_full 1"
  "npeers (mem st_full 1) = MAX_PEERS"
  "last (cache st_full 1) = 17"
  "refcount (mem st_full 17) = 1"
  "17 \<in> set (allocated st_full)"
  by (simp_all add: st_full_def st0_def ctx0_def wf_cache_def cache_def MAX_PEERS_def)

lemma st_full_unref: "1 \<in> set (allocated (unref st_full 17))"
  by (simp add: unref_def Let_def dec_refcount_def upd_def deallocate_fdctx.simps
      proxy_peers_unref_all.simps free_ctx_def st_full_def st0_def ctx0_def)

theorem proxy_peers_add_bounded_mru_witness:
  "wf_cache st_full 1 \<and> npeers (mem st_full 1) = MAX_PEERS \<and>
   cache (proxy_peers_add st_full 1 18) 1 = [18, 2, 3, 4, 5, 6, 7, 8, 9, 10, 11, 12, 13, 14, 15, 16] \<and>
   17 \<notin> set (allocated (proxy_peers_add st_full 1 18)) \<and>
   length (cache (proxy_peers_add st_full 1 18) 1) \<le> MAX_PEERS"
proof -
  have b: "butlast (cache st_full 1) = [2, 3, 4, 5, 6, 7, 8, 9, 10, 11, 12, 13, 14, 15, 16]"
    by (simp add: st_full_def st0_def ctx0_def cache_def)
  show ?thesis
    using proxy_peers_add_bounded_mru[OF st_full_facts(1), of 18] st_full_facts st_full_unref b
    by (simp add: Let_def MAX_PEERS_def)
qed

text \<open>
  C6 (as amended). \<open>P\<close> is an entry of the cache of \<open>c\<close> whose UID is unset, and the
  router looks up a decoded UID \<open>u\<close> for \<open>c\<close> (\<open>find\<close>, then the index and \<open>add\<close> on a
  miss). The lookup never yields \<open>P\<close>, and it does not sweep \<open>P\<close>: \<open>P\<close> keeps its unset
  UID and is still in the cache afterwards, unless the cache was full and \<open>P\<close> was its
  oldest entry, which \<open>add\<close> evicts. (With a full cache the statement is for an owner
  that is still allocated afterwards.)
\<close>

theorem tombstone_not_swept_by_lookup:
  assumes "wf_cache s c"
    and "P \<in> set (cache s c)"
    and "faf_uid (mem s P) = -1"
    and "0 \<le> u"
    and "resolve s c u = (s', r)"
  shows "r \<noteq> Some P \<and> faf_uid (mem s' P) = -1 \<and>
         (npeers (mem s c) < MAX_PEERS \<longrightarrow> P \<in> set (cache s' c)) \<and>
         (npeers (mem s c) = MAX_PEERS \<and> P \<in> set (butlast (cache s c)) \<and> c \<in> set (allocated s')
            \<longrightarrow> P \<in> set (cache s' c))"
  using tombstone_lookup[OF assms] by blast

theorem tombstone_not_swept_by_lookup_witness:
  "wf_cache st_tomb 2 \<and> 1 \<in> set (cache st_tomb 2) \<and> faf_uid (mem st_tomb 1) = -1 \<and>
   resolve st_tomb 2 42 = (st_tomb, None) \<and> 1 \<in> set (cache st_tomb 2) \<and>
   npeers (mem st_tomb 2) < MAX_PEERS"
proof -
  have r: "resolve st_tomb 2 42 = (st_tomb, None)"
    by (simp add: resolve_def proxy_peers_find_def find_loop.simps peer_sockets_find_def
        st_tomb_unfold)
  have "1 \<in> set (cache st_tomb 2)"
    using tombstone_not_swept_by_lookup[of st_tomb 2 1 42 st_tomb None] r st_tomb_facts
    by simp
  then show ?thesis
    using r st_tomb_facts by simp
qed

text \<open>
  C6 as stated fails: peer 1 is closed and its UID unset, peer 2 has it in its cache;
  peer 2 then receives a message for UID 42, the cache is searched, and afterwards peer 1
  is still in the cache of peer 2.
\<close>

theorem tombstone_stays_after_access:
  "faf_uid (mem st_tomb 1) = -1 \<and> cache st_tomb 2 = [1] \<and>
   cache_after_event st_tomb 2 (env0\<lparr>e_read := ReadData frame_1\<rparr>) 2 = Some [1]"
proof -
  have "peer_event st_tomb 2 (env0\<lparr>e_read := ReadData frame_1\<rparr>) =
        Some (compact (append_read st_tomb 2 frame_1) 2 (8 + int (length [0xDE, 0xAD, 0xBE, 0xEF :: byte])))"
    unfolding frame_1_def
    by (rule peer_event_unroutable)
       (simp_all add: st_tomb_facts bufsize_val st_tomb_resolve[unfolded frame_1_def])
  then show ?thesis
    using st_tomb_facts by (simp add: cache_after_event_def cache_compact cache_buf_only)
qed

text \<open>
  C8. With \<open>-u path\<close> and no instance running, a failing \<open>bind\<close> on the local control
  socket (after \<open>connect\<close> gave \<open>ENOENT\<close>) is logged but start-up goes on and enters the
  event loop: there is no exit status. The same for a failing \<open>listen\<close> after \<open>connect\<close>
  gave \<open>ECONNREFUSED\<close>. A failing \<open>bind\<close> on the TCP socket does exit with status 1.
\<close>

theorem ctrl_listen_failure_ignored:
  "exit_after_startup (boot0\<lparr>b_bind_ok := False\<rparr>) = None \<and>
   log_after_startup (boot0\<lparr>b_bind_ok := False\<rparr>) = [''bind''] \<and>
   exit_after_startup (boot0\<lparr>b_connect := Some ECONNREFUSED, b_listen_ok := False\<rparr>) = None \<and>
   log_after_startup (boot0\<lparr>b_connect := Some ECONNREFUSED, b_listen_ok := False\<rparr>) = [''listen''] \<and>
   exit_after_startup (boot0\<lparr>b_addrs := [addr4\<lparr>ai_bind_ok := False\<rparr>]\<rparr>) = Some 1 \<and>
   log_after_startup (boot0\<lparr>b_addrs := [addr4\<lparr>ai_bind_ok := False\<rparr>]\<rparr>) = [''bind'']"
  by (simp add: startup_unfold)






end
